theory Spec2Isabelle
  imports Complex_Main "HOL-Library.AList" "HOL-Library.Code_Target_Nat"
begin

section \<open>The JavaScript values the worker computes with\<close>

text \<open>
  The worker is TypeScript running on a JavaScript engine. Its handlers lean on the
  language's coercions (\<open>String(v)\<close>, \<open>Number(v)\<close>, \<open>a || b\<close>, \<open>a ?? b\<close>) and on
  IEEE-754 double arithmetic, so these are modelled first, following ECMA-262.

  A string is the list of its UTF-16 code units, each carried by the 8-bit character of
  the same value: the model covers the strings all of whose code units are below 256
  (ASCII and the Latin-1 supplement).
\<close>

subsection \<open>Numbers: IEEE-754 doubles\<close>

text \<open>
  A finite double is carried by the rational it denotes. The two zeros are one value:
  the only place a zero's sign could show is a division, and the handlers divide only by
  \<open>oldCount + 1\<close>, which is never \<open>-0\<close>.
\<close>

datatype jsnum = NaN | PosInf | NegInf | Fin rat

fun log2floor :: "nat \<Rightarrow> nat" where
  "log2floor n = (if n < 2 then 0 else Suc (log2floor (n div 2)))"

declare log2floor.simps [simp del]

definition pow2 :: "int \<Rightarrow> rat" where
  "pow2 e = (if 0 \<le> e then 2 ^ nat e else 1 / 2 ^ nat (- e))"

definition pow10 :: "int \<Rightarrow> rat" where
  "pow10 e = (if 0 \<le> e then 10 ^ nat e else 1 / 10 ^ nat (- e))"

text \<open>\<open>binexp a\<close> is the binary exponent of \<open>a > 0\<close>: \<open>2 ^ e \<le> a < 2 ^ (e + 1)\<close>.\<close>

definition binexp :: "rat \<Rightarrow> int" where
  "binexp a = (if 1 \<le> a then int (log2floor (nat \<lfloor>a\<rfloor>))
               else - int (Suc (log2floor (nat (\<lceil>1 / a\<rceil> - 1)))))"

definition round_even :: "rat \<Rightarrow> int" where
  "round_even m = (let f = \<lfloor>m\<rfloor>; d = m - of_int f
     in if d < 1 / 2 then f else if 1 / 2 < d then f + 1 else if even f then f else f + 1)"

text \<open>
  Round to nearest, ties to even, onto the doubles: 53 significant bits, exponents from
  \<open>-1022\<close> (below which the spacing stays \<open>2 ^ -1074\<close>) to \<open>1023\<close> (above which the
  result is infinite).
\<close>

definition fround :: "rat \<Rightarrow> jsnum" where
  "fround q = (if q = 0 then Fin 0 else
     let a = \<bar>q\<bar>; e = max (binexp a) (- 1022); u = pow2 (e - 52); n = round_even (a / u)
     in if 1024 \<le> e \<or> (e = 1023 \<and> n = 2 ^ 53) then (if 0 < q then PosInf else NegInf)
        else Fin (sgn q * of_int n * u))"

fun jadd :: "jsnum \<Rightarrow> jsnum \<Rightarrow> jsnum" where
  "jadd NaN _ = NaN"
| "jadd _ NaN = NaN"
| "jadd PosInf NegInf = NaN"
| "jadd NegInf PosInf = NaN"
| "jadd PosInf _ = PosInf"
| "jadd _ PosInf = PosInf"
| "jadd NegInf _ = NegInf"
| "jadd _ NegInf = NegInf"
| "jadd (Fin a) (Fin b) = fround (a + b)"

definition signed_inf :: "bool \<Rightarrow> jsnum" where
  "signed_inf positive = (if positive then PosInf else NegInf)"

fun jmul :: "jsnum \<Rightarrow> jsnum \<Rightarrow> jsnum" where
  "jmul NaN _ = NaN"
| "jmul _ NaN = NaN"
| "jmul (Fin a) (Fin b) = fround (a * b)"
| "jmul (Fin a) PosInf = (if a = 0 then NaN else signed_inf (0 < a))"
| "jmul (Fin a) NegInf = (if a = 0 then NaN else signed_inf (a < 0))"
| "jmul PosInf (Fin b) = (if b = 0 then NaN else signed_inf (0 < b))"
| "jmul NegInf (Fin b) = (if b = 0 then NaN else signed_inf (b < 0))"
| "jmul PosInf PosInf = PosInf"
| "jmul NegInf NegInf = PosInf"
| "jmul PosInf NegInf = NegInf"
| "jmul NegInf PosInf = NegInf"

fun jdiv :: "jsnum \<Rightarrow> jsnum \<Rightarrow> jsnum" where
  "jdiv NaN _ = NaN"
| "jdiv _ NaN = NaN"
| "jdiv (Fin a) (Fin b) =
     (if b = 0 then (if a = 0 then NaN else signed_inf (0 < a)) else fround (a / b))"
| "jdiv (Fin a) PosInf = Fin 0"
| "jdiv (Fin a) NegInf = Fin 0"
| "jdiv PosInf (Fin b) = signed_inf (0 \<le> b)"
| "jdiv NegInf (Fin b) = signed_inf (b < 0)"
| "jdiv PosInf PosInf = NaN"
| "jdiv PosInf NegInf = NaN"
| "jdiv NegInf PosInf = NaN"
| "jdiv NegInf NegInf = NaN"

text \<open>\<open>a < b\<close> on numbers; every comparison with \<open>NaN\<close> is false.\<close>

fun jless :: "jsnum \<Rightarrow> jsnum \<Rightarrow> bool" where
  "jless NaN _ = False"
| "jless _ NaN = False"
| "jless (Fin a) (Fin b) = (a < b)"
| "jless PosInf _ = False"
| "jless _ PosInf = True"
| "jless _ NegInf = False"
| "jless NegInf _ = True"

subsection \<open>Numbers and strings\<close>

definition digit_char :: "nat \<Rightarrow> char" where
  "digit_char d = char_of (48 + d)"

fun digits :: "nat \<Rightarrow> string" where
  "digits n = (if n < 10 then [digit_char n] else digits (n div 10) @ [digit_char (n mod 10)])"

declare digits.simps [simp del]

definition is_digit :: "char \<Rightarrow> bool" where
  "is_digit c = (48 \<le> (of_char c :: nat) \<and> (of_char c :: nat) \<le> 57)"

definition digits_val :: "string \<Rightarrow> nat" where
  "digits_val s = foldl (\<lambda>a c. 10 * a + (of_char c - 48)) 0 s"

text \<open>\<open>decexp a\<close> is the decimal exponent of \<open>a > 0\<close>: \<open>10 ^ (n - 1) \<le> a < 10 ^ n\<close>.\<close>

definition decexp :: "rat \<Rightarrow> int" where
  "decexp a = (if 1 \<le> a then int (length (digits (nat \<lfloor>a\<rfloor>)))
               else 1 - int (length (digits (nat (\<lceil>1 / a\<rceil> - 1)))))"

text \<open>
  \<open>Number::toString\<close> prints the shortest digit string \<open>s\<close> (\<open>k\<close> digits, decimal
  exponent \<open>n\<close>) that reads back as the same double, the closest one when several do.
  For \<open>k\<close> digits the two candidates are the neighbours of the value on the grid of
  spacing \<open>10 ^ (n - k)\<close>.
\<close>

definition candidates :: "rat \<Rightarrow> int \<Rightarrow> nat \<Rightarrow> (nat \<times> int) list" where
  "candidates a n0 k =
     (let g = pow10 (n0 - int k); lo = nat \<lfloor>a / g\<rfloor>;
          hi = (if Suc lo = 10 ^ k then (10 ^ (k - 1), n0 + 1) else (Suc lo, n0))
      in filter (\<lambda>(s, n). fround (of_nat s * pow10 (n - int k)) = Fin a)
           (if \<bar>of_nat lo * g - a\<bar> < \<bar>of_nat (Suc lo) * g - a\<bar> then [(lo, n0), hi]
            else if \<bar>of_nat (Suc lo) * g - a\<bar> < \<bar>of_nat lo * g - a\<bar> then [hi, (lo, n0)]
            else if even lo then [(lo, n0), hi] else [hi, (lo, n0)]))"

fun shortest :: "rat \<Rightarrow> int \<Rightarrow> nat \<Rightarrow> nat \<Rightarrow> nat \<times> nat \<times> int" where
  "shortest a n0 k 0 = (k, nat \<lfloor>a / pow10 (n0 - int k)\<rfloor>, n0)"
| "shortest a n0 k (Suc fuel) =
     (case candidates a n0 k of (s, n) # _ \<Rightarrow> (k, s, n) | [] \<Rightarrow> shortest a n0 (Suc k) fuel)"

definition format_digits :: "nat \<Rightarrow> nat \<Rightarrow> int \<Rightarrow> string" where
  "format_digits k s n =
     (let ds = digits s in
      if int k \<le> n \<and> n \<le> 21 then ds @ replicate (nat (n - int k)) CHR ''0''
      else if 0 < n \<and> n \<le> 21 then take (nat n) ds @ ''.'' @ drop (nat n) ds
      else if - 6 < n \<and> n \<le> 0 then ''0.'' @ replicate (nat (- n)) CHR ''0'' @ ds
      else (if k = 1 then ds else take 1 ds @ ''.'' @ drop 1 ds)
           @ ''e'' @ (if 0 \<le> n - 1 then ''+'' else ''-'') @ digits (nat \<bar>n - 1\<bar>))"

text \<open>
  A whole number of magnitude at most \<open>2 ^ 53\<close> is printed as its decimal digits (no
  shorter digit string reads back as it), so that case is written out directly.
\<close>

definition pos_to_string :: "rat \<Rightarrow> string" where
  "pos_to_string a =
     (if of_int \<lfloor>a\<rfloor> = a \<and> a \<le> 2 ^ 53 then digits (nat \<lfloor>a\<rfloor>)
      else case shortest a (decexp a) 1 17 of (k, s, n) \<Rightarrow> format_digits k s n)"

fun num_to_string :: "jsnum \<Rightarrow> string" where
  "num_to_string NaN = ''NaN''"
| "num_to_string PosInf = ''Infinity''"
| "num_to_string NegInf = ''-Infinity''"
| "num_to_string (Fin q) =
     (if q = 0 then ''0'' else if q < 0 then ''-'' @ pos_to_string (- q) else pos_to_string q)"

text \<open>
  \<open>x.toFixed(1)\<close>: the integer \<open>n\<close> with \<open>n / 10\<close> closest to \<open>x\<close>, the larger one on a
  tie, printed with one fraction digit; from \<open>10 ^ 21\<close> on, and for non-finite \<open>x\<close>, the
  plain string of \<open>x\<close>.
\<close>

definition fixed1_digits :: "rat \<Rightarrow> string" where
  "fixed1_digits a =
     (let n = nat \<lfloor>a * 10 + 1 / 2\<rfloor>; m = (if n < 10 then ''0'' @ digits n else digits n)
      in take (length m - 1) m @ ''.'' @ drop (length m - 1) m)"

fun toFixed1 :: "jsnum \<Rightarrow> string" where
  "toFixed1 (Fin q) =
     (if q < 0
      then ''-'' @ (if 10 ^ 21 \<le> - q then num_to_string (Fin (- q)) else fixed1_digits (- q))
      else (if 10 ^ 21 \<le> q then num_to_string (Fin q) else fixed1_digits q))"
| "toFixed1 x = num_to_string x"

text \<open>
  The white space and line terminators of ECMA-262 among the code units below 256: tab,
  line feed, vertical tab, form feed, carriage return, space and the no-break space
  U+00A0. \<open>String.prototype.trim\<close> and \<open>Number(s)\<close> strip exactly these from both ends.
\<close>

definition is_space :: "char \<Rightarrow> bool" where
  "is_space c = ((of_char c :: nat) \<in> {9, 10, 11, 12, 13, 32, 160})"

text \<open>
  \<open>Number(s)\<close> on a string: white space is trimmed, the empty string is \<open>0\<close>, and the
  rest must be a whole numeric literal: \<open>0x\<close>/\<open>0o\<close>/\<open>0b\<close> digits, or an optionally
  signed \<open>Infinity\<close> or decimal literal with optional fraction and exponent. Anything
  else is \<open>NaN\<close>.
\<close>

definition trim :: "string \<Rightarrow> string" where
  "trim s = rev (dropWhile is_space (rev (dropWhile is_space s)))"

definition radix_digit :: "char \<Rightarrow> nat option" where
  "radix_digit c =
     (let v = (of_char c :: nat) in
      if 48 \<le> v \<and> v \<le> 57 then Some (v - 48)
      else if 97 \<le> v \<and> v \<le> 102 then Some (v - 87)
      else if 65 \<le> v \<and> v \<le> 70 then Some (v - 55)
      else None)"

definition radix_val :: "nat \<Rightarrow> string \<Rightarrow> nat option" where
  "radix_val b s =
     (if s \<noteq> [] \<and> (\<forall>c \<in> set s. case radix_digit c of Some d \<Rightarrow> d < b | None \<Rightarrow> False)
      then Some (foldl (\<lambda>a c. b * a + the (radix_digit c)) 0 s)
      else None)"

definition parse_radix :: "string \<Rightarrow> nat option" where
  "parse_radix t =
     (case t of
        c0 # c1 # r \<Rightarrow>
          if c0 = CHR ''0'' \<and> (c1 = CHR ''x'' \<or> c1 = CHR ''X'') then radix_val 16 r
          else if c0 = CHR ''0'' \<and> (c1 = CHR ''o'' \<or> c1 = CHR ''O'') then radix_val 8 r
          else if c0 = CHR ''0'' \<and> (c1 = CHR ''b'' \<or> c1 = CHR ''B'') then radix_val 2 r
          else None
      | _ \<Rightarrow> None)"

definition parse_exponent :: "string \<Rightarrow> int option" where
  "parse_exponent r =
     (case r of
        [] \<Rightarrow> Some 0
      | c # r1 \<Rightarrow>
          if c = CHR ''e'' \<or> c = CHR ''E'' then
            (let neg = (r1 \<noteq> [] \<and> hd r1 = CHR ''-'');
                 ds = (if r1 \<noteq> [] \<and> (hd r1 = CHR ''-'' \<or> hd r1 = CHR ''+'') then tl r1 else r1)
             in if ds \<noteq> [] \<and> list_all is_digit ds
                then Some (if neg then - int (digits_val ds) else int (digits_val ds))
                else None)
          else None)"

definition parse_unsigned :: "string \<Rightarrow> rat option" where
  "parse_unsigned t =
     (let ip = takeWhile is_digit t; r1 = dropWhile is_digit t;
          dot = (r1 \<noteq> [] \<and> hd r1 = CHR ''.'');
          fp = (if dot then takeWhile is_digit (tl r1) else []);
          r2 = (if dot then dropWhile is_digit (tl r1) else r1)
      in if ip = [] \<and> fp = [] then None
         else case parse_exponent r2 of
                None \<Rightarrow> None
              | Some ex \<Rightarrow> Some (of_nat (digits_val (ip @ fp)) * pow10 (ex - int (length fp))))"

definition parse_decimal :: "string \<Rightarrow> jsnum option" where
  "parse_decimal t =
     (let neg = (t \<noteq> [] \<and> hd t = CHR ''-'');
          u = (if t \<noteq> [] \<and> (hd t = CHR ''-'' \<or> hd t = CHR ''+'') then tl t else t)
      in if u = ''Infinity'' then Some (if neg then NegInf else PosInf)
         else case parse_unsigned u of
                None \<Rightarrow> None
              | Some v \<Rightarrow> Some (fround (if neg then - v else v)))"

definition string_to_number :: "string \<Rightarrow> jsnum" where
  "string_to_number s =
     (let t = trim s in
      if t = [] then Fin 0
      else case parse_radix t of
             Some v \<Rightarrow> fround (of_nat v)
           | None \<Rightarrow> (case parse_decimal t of Some x \<Rightarrow> x | None \<Rightarrow> NaN))"

subsection \<open>Values, truthiness and coercions\<close>

text \<open>
  The values a parsed JSON document can hold, and \<open>undefined\<close>, which reading a missing
  property yields. An object is its list of properties, each name listed once; a lookup takes the first match.
\<close>

datatype jsval =
    Undefined
  | Null
  | Bool bool
  | Num jsnum
  | Str string
  | Arr "jsval list"
  | Obj "(string \<times> jsval) list"

fun truthy :: "jsval \<Rightarrow> bool" where
  "truthy Undefined = False"
| "truthy Null = False"
| "truthy (Bool b) = b"
| "truthy (Num n) = (n \<noteq> NaN \<and> n \<noteq> Fin 0)"
| "truthy (Str s) = (s \<noteq> [])"
| "truthy (Arr _) = True"
| "truthy (Obj _) = True"

text \<open>\<open>a || b\<close> and \<open>a ?? b\<close>.\<close>

definition or_else :: "jsval \<Rightarrow> jsval \<Rightarrow> jsval" where
  "or_else a b = (if truthy a then a else b)"

definition nullish :: "jsval \<Rightarrow> jsval \<Rightarrow> jsval" where
  "nullish a b = (if a = Undefined \<or> a = Null then b else a)"

fun join :: "string \<Rightarrow> string list \<Rightarrow> string" where
  "join sep [] = []"
| "join sep [x] = x"
| "join sep (x # y # r) = x @ sep @ join sep (y # r)"

text \<open>
  What the worker's code can throw: a \<open>TypeError\<close>, a \<open>RangeError\<close>, a \<open>SyntaxError\<close>
  or a plain \<open>Error\<close>, each with its message.
\<close>

datatype exn = TypeError string | RangeError string | SyntaxError string | Error string

text \<open>Evaluation from left to right: all the results, or the first exception.\<close>

fun collect :: "(exn + 'a) list \<Rightarrow> exn + 'a list" where
  "collect [] = Inr []"
| "collect (Inl e # _) = Inl e"
| "collect (Inr x # rs) = (case collect rs of Inl e \<Rightarrow> Inl e | Inr xs \<Rightarrow> Inr (x # xs))"

text \<open>
  \<open>String(v)\<close>. An array prints its elements joined by commas, \<open>null\<close> and \<open>undefined\<close>
  elements as the empty string. An object is first converted to a primitive: its
  \<open>toString\<close> is called if it is a function, else its \<open>valueOf\<close>. An object of a JSON
  document inherits both, and prints as \<open>[object Object]\<close>, unless it has a property of
  its own named \<open>toString\<close>: that is no function, the inherited \<open>valueOf\<close> (or an own
  \<open>valueOf\<close>, no function either) yields no primitive, and the conversion throws a
  \<open>TypeError\<close>.
\<close>

fun js_String :: "jsval \<Rightarrow> exn + string" where
  "js_String Undefined = Inr ''undefined''"
| "js_String Null = Inr ''null''"
| "js_String (Bool b) = Inr (if b then ''true'' else ''false'')"
| "js_String (Num n) = Inr (num_to_string n)"
| "js_String (Str s) = Inr s"
| "js_String (Arr xs) =
     (case collect (map (\<lambda>x. if x = Undefined \<or> x = Null then Inr [] else js_String x) xs) of
        Inl e \<Rightarrow> Inl e
      | Inr ss \<Rightarrow> Inr (join '','' ss))"
| "js_String (Obj kvs) =
     (if map_of kvs ''toString'' \<noteq> None
      then Inl (TypeError ''Cannot convert object to primitive value'')
      else Inr ''[object Object]'')"

text \<open>
  \<open>Number(v)\<close>. Arrays and objects are converted to a primitive as for \<open>String(v)\<close> (their
  \<open>valueOf\<close> yields no primitive, so it comes down to \<open>toString\<close>), and the string is
  read as a number.
\<close>

fun js_Number :: "jsval \<Rightarrow> exn + jsnum" where
  "js_Number Undefined = Inr NaN"
| "js_Number Null = Inr (Fin 0)"
| "js_Number (Bool b) = Inr (if b then Fin 1 else Fin 0)"
| "js_Number (Num n) = Inr n"
| "js_Number (Str s) = Inr (string_to_number s)"
| "js_Number (Arr xs) =
     (case js_String (Arr xs) of Inl e \<Rightarrow> Inl e | Inr s \<Rightarrow> Inr (string_to_number s))"
| "js_Number (Obj kvs) =
     (case js_String (Obj kvs) of Inl e \<Rightarrow> Inl e | Inr s \<Rightarrow> Inr (string_to_number s))"

text \<open>
  \<open>JSON.stringify(v)\<close>, given as the value the written text parses to. A number that is
  not finite is written as \<open>null\<close>; a property whose value is \<open>undefined\<close> is left out,
  and an \<open>undefined\<close> element of an array is written as \<open>null\<close>.
\<close>

fun to_json :: "jsval \<Rightarrow> jsval" where
  "to_json (Num n) = (case n of Fin q \<Rightarrow> Num (Fin q) | _ \<Rightarrow> Null)"
| "to_json (Arr xs) = Arr (map (\<lambda>x. if x = Undefined then Null else to_json x) xs)"
| "to_json (Obj kvs) =
     Obj (map (\<lambda>(k, v). (k, to_json v)) (filter (\<lambda>(k, v). v \<noteq> Undefined) kvs))"
| "to_json v = v"

text \<open>
  \<open>v.k\<close>: reading a property of \<open>null\<close> or \<open>undefined\<close> throws a \<open>TypeError\<close>; the
  property names the worker reads exist on objects only.
\<close>

definition cannot_read :: "string \<Rightarrow> string \<Rightarrow> exn" where
  "cannot_read v k =
     TypeError (''Cannot read properties of '' @ v @ '' (reading '' @ [CHR 0x27] @ k @ [CHR 0x27]
                @ '')'')"

definition get_prop :: "jsval \<Rightarrow> string \<Rightarrow> exn + jsval" where
  "get_prop v k =
     (case v of
        Obj kvs \<Rightarrow> Inr (case map_of kvs k of Some x \<Rightarrow> x | None \<Rightarrow> Undefined)
      | Null \<Rightarrow> Inl (cannot_read ''null'' k)
      | Undefined \<Rightarrow> Inl (cannot_read ''undefined'' k)
      | _ \<Rightarrow> Inr Undefined)"

text \<open>\<open>v?.k\<close>: as \<open>v.k\<close>, but \<open>undefined\<close> where \<open>v.k\<close> would throw.\<close>

definition get_prop_opt :: "jsval \<Rightarrow> string \<Rightarrow> jsval" where
  "get_prop_opt v k = (case get_prop v k of Inl _ \<Rightarrow> Undefined | Inr x \<Rightarrow> x)"

text \<open>
  \<open>{...v, k1: x1, ...}\<close>: the own enumerable properties of \<open>v\<close> (the indexed elements of
  an array or string, none for the other primitives), then each named property set in
  turn. The order of properties carries no meaning here.
\<close>

definition spread :: "jsval \<Rightarrow> (string \<times> jsval) list" where
  "spread v =
     (case v of
        Obj kvs \<Rightarrow> kvs
      | Arr xs \<Rightarrow> zip (map digits [0 ..< length xs]) xs
      | Str s \<Rightarrow> zip (map digits [0 ..< length s]) (map (\<lambda>c. Str [c]) s)
      | _ \<Rightarrow> [])"

section \<open>The worker's surroundings\<close>

text \<open>
  The worker keeps no state of its own. Its two key-value namespaces, \<open>SRM_COUNTS\<close> and
  \<open>SRM_RATELIMIT\<close>, map string keys to string values; a \<open>get\<close> of an absent key yields
  \<open>null\<close>. Expiry of rate-limit markers is the store's business: a marker is in the map
  for as long as its window lasts. Every store access and every outgoing request is
  appended to a trace, so that "no write" and "no external call" can be stated.

  Of an outgoing request the trace keeps what identifies the call: the captcha token,
  the release tag, the release id with the sanitized name and the size of an uploaded
  file, the category and title of an issue with the assets it lists (its title line and
  body are made from these), the URL of a proxied asset.
\<close>

datatype store = Counts | RateLimit

datatype call =
    Catalog
  | CaptchaVerify string
  | ReleaseByTag string
  | ReleaseCreate string
  | AssetUpload string string nat
  | IssueCreate string string "(string \<times> nat) list"
  | Asset string

datatype effect =
    KvGet store string
  | KvPut store string string "nat option"
  | Fetch call

record world =
  counts :: "string \<rightharpoonup> string"
  ratelimit :: "string \<rightharpoonup> string"
  trace :: "effect list"

text \<open>
  What an outgoing \<open>fetch\<close> comes back with: it rejects, or it resolves to a response
  with a status and a body that parses as JSON or does not.
\<close>

datatype fetched = Rejected string | Reply nat "jsval option"

fun reply_ok :: "fetched \<Rightarrow> bool" where
  "reply_ok (Reply st _) = (200 \<le> st \<and> st \<le> 299)"
| "reply_ok (Rejected _) = False"

text \<open>\<open>MAX_FILE_BYTES?: string | number\<close>\<close>

datatype limit = Unset | Text string | Number jsnum

text \<open>
  The deployment: the configured bindings, the remote services (their answer may depend
  on everything that happened before), the clock, and the platform's URL parser, which
  gives the host name of a URL or fails.
\<close>

record env =
  HCAPTCHA_SECRET :: "string option"
  MAX_FILE_BYTES :: limit
  remote :: "effect list \<Rightarrow> call \<Rightarrow> fetched"
  utc_year :: nat
  utc_month :: nat
  url_hostname :: "string \<Rightarrow> string option"

record js_file =
  file_name :: string
  file_size :: nat

datatype form_value = Field string | Upload js_file

text \<open>
  A request: its headers (by lower-case name) and query parameters, its body read as
  JSON (\<open>None\<close> when it does not parse) and as form data (\<open>None\<close> when it does not
  parse).
\<close>

record request =
  headers :: "string \<rightharpoonup> string"
  search :: "string \<rightharpoonup> string"
  body_json :: "jsval option"
  form_data :: "(string \<times> form_value) list option"

text \<open>
  A response: a status with a JSON document, or a status with a body that is not JSON
  (the fixed text of a failed download, or the upstream body, named by the asset's URL).
\<close>

datatype response = Json nat jsval | Raw nat string

type_synonym 'a outcome = "(exn + 'a) \<times> world"

definition kv_value :: "(string \<rightharpoonup> string) \<Rightarrow> string \<Rightarrow> jsval" where
  "kv_value m k = (case m k of None \<Rightarrow> Null | Some v \<Rightarrow> Str v)"

definition kv_get :: "store \<Rightarrow> string \<Rightarrow> world \<Rightarrow> jsval \<times> world" where
  "kv_get ns k w =
     (kv_value (case ns of Counts \<Rightarrow> counts w | RateLimit \<Rightarrow> ratelimit w) k,
      w\<lparr>trace := trace w @ [KvGet ns k]\<rparr>)"

definition kv_put :: "store \<Rightarrow> string \<Rightarrow> string \<Rightarrow> nat option \<Rightarrow> world \<Rightarrow> world" where
  "kv_put ns k v ttl w =
     (case ns of
        Counts \<Rightarrow> w\<lparr>counts := (counts w)(k \<mapsto> v), trace := trace w @ [KvPut ns k v ttl]\<rparr>
      | RateLimit \<Rightarrow> w\<lparr>ratelimit := (ratelimit w)(k \<mapsto> v), trace := trace w @ [KvPut ns k v ttl]\<rparr>)"

definition do_fetch :: "env \<Rightarrow> call \<Rightarrow> world \<Rightarrow> fetched \<times> world" where
  "do_fetch e c w = (remote e (trace w) c, w\<lparr>trace := trace w @ [Fetch c]\<rparr>)"

text \<open>\<open>await r.json()\<close>: rejects when the body is not JSON.\<close>

definition reply_json :: "fetched \<Rightarrow> exn + jsval" where
  "reply_json r =
     (case r of
        Reply _ (Some j) \<Rightarrow> Inr j
      | Reply _ None \<Rightarrow> Inl (SyntaxError ''Unexpected token'')
      | Rejected m \<Rightarrow> Inl (Error m))"

text \<open>
  \<open>new Response(body, { status })\<close> with a body that is not \<open>null\<close>: a status outside 200
  to 599 is a \<open>RangeError\<close>, and a status that allows no body (204, 205, 304) is a
  \<open>TypeError\<close>.
\<close>

definition new_response :: "string \<Rightarrow> nat \<Rightarrow> exn + response" where
  "new_response body st =
     (if st < 200 \<or> 599 < st then Inl (RangeError ''The status provided is outside the range [200, 599].'')
      else if st = 204 \<or> st = 205 \<or> st = 304
      then Inl (TypeError ''Response with null body status cannot have body'')
      else Inr (Raw st body))"

section \<open>The worker\<close>

text \<open>
  Each handler is a function from the world to an outcome: the response it returns or
  the exception it throws (which the router turns into a 500), with the world it leaves.
  \<open>String(v)\<close> and \<open>Number(v)\<close> are \<open>js_String\<close> and \<open>js_Number\<close> wherever \<open>v\<close> comes
  from a JSON document or a store; applied to a number or to a string of the handler's
  own making they are \<open>num_to_string\<close>, the string itself, and \<open>string_to_number\<close>.
\<close>

subsection \<open>Helpers\<close>

definition ok :: "jsval \<Rightarrow> response" where
  "ok data = Json 200 (to_json data)"

definition err :: "nat \<Rightarrow> string \<Rightarrow> response" where
  "err status message = Json status (to_json (Obj [(''ok'', Bool False), (''error'', Str message)]))"

text \<open>
  \<open>a || d\<close> for \<open>a\<close> a string or \<open>null\<close> (a header, a query parameter, a form field) and
  \<open>d\<close> a string.
\<close>

definition str_or :: "string option \<Rightarrow> string \<Rightarrow> string" where
  "str_or a d = (case a of Some s \<Rightarrow> if s \<noteq> [] then s else d | None \<Rightarrow> d)"

text \<open>
  \<open>norm\<close> is applied to the properties of \<open>raw\<close>, the object made of the form's text
  entries: each is a string or \<open>undefined\<close>.
\<close>

definition norm_str :: "string option \<Rightarrow> string" where
  "norm_str v = trim (case v of None \<Rightarrow> [] | Some s \<Rightarrow> s)"

definition ip :: "request \<Rightarrow> string" where
  "ip req =
     str_or (headers req ''cf-connecting-ip'') (str_or (headers req ''x-forwarded-for'') ''0.0.0.0'')"

definition request_json :: "request \<Rightarrow> jsval" where
  "request_json req = (case body_json req of Some b \<Rightarrow> b | None \<Rightarrow> Obj [])"

subsection \<open>Content read endpoints\<close>

text \<open>
  Both read endpoints overlay the four live counters on a catalog item with the same
  object expression; \<open>enrich\<close> is that expression, with the four \<open>get\<close>s in the order
  the source starts them. The object is built after the four lookups, and a
  \<open>Number(...)\<close> in it may throw.
\<close>

definition enrich :: "string \<Rightarrow> jsval \<Rightarrow> world \<Rightarrow> (exn + jsval) \<times> world" where
  "enrich id' it w =
     (let (likes, w1) = kv_get Counts (''likes:'' @ id') w;
          (downloads, w2) = kv_get Counts (''downloads:'' @ id') w1;
          (rating, w3) = kv_get Counts (''rating:'' @ id') w2;
          (totalRatings, w4) = kv_get Counts (''rating_count:'' @ id') w3
      in ((case js_Number (or_else (or_else likes (get_prop_opt it ''likes'')) (Num (Fin 0))) of
            Inl ex \<Rightarrow> Inl ex
          | Inr l \<Rightarrow>
         (case js_Number (or_else (or_else downloads (get_prop_opt it ''downloads'')) (Num (Fin 0))) of
            Inl ex \<Rightarrow> Inl ex
          | Inr d \<Rightarrow>
         (case (if truthy rating then (case js_Number rating of Inl ex \<Rightarrow> Inl ex | Inr r \<Rightarrow> Inr (Num r))
                else Inr (or_else (get_prop_opt it ''rating'') (Num (Fin 0)))) of
            Inl ex \<Rightarrow> Inl ex
          | Inr r \<Rightarrow>
         (case js_Number (or_else (or_else totalRatings (get_prop_opt it ''totalRatings''))
                            (Num (Fin 0))) of
            Inl ex \<Rightarrow> Inl ex
          | Inr t \<Rightarrow>
              Inr (Obj (AList.update ''totalRatings'' (Num t)
                         (AList.update ''rating'' r
                            (AList.update ''downloads'' (Num d)
                               (AList.update ''likes'' (Num l) (spread it)))))))))),
          w4))"

text \<open>\<open>String(it.id ?? it.number ?? "")\<close>\<close>

definition item_key :: "jsval \<Rightarrow> exn + string" where
  "item_key it =
     (case get_prop it ''id'' of
        Inl e \<Rightarrow> Inl e
      | Inr i \<Rightarrow> js_String (nullish (nullish i (get_prop_opt it ''number'')) (Str [])))"

text \<open>
  \<open>items.map(async (it) => ...)\<close>: each callback runs up to its first \<open>await\<close> when it is
  called, so the lookups are started item by item. A callback that throws before that
  gives a promise that is rejected at once, one that returns the item as it is gives a
  fulfilled one, and the others settle after their lookups, with the merged item or
  with what building it threw.
\<close>

datatype started = Thrown exn | Returned jsval | Awaited "exn + jsval"

fun merge_items :: "jsval list \<Rightarrow> world \<Rightarrow> started list \<times> world" where
  "merge_items [] w = ([], w)"
| "merge_items (it # its) w =
     (case item_key it of
        Inl e \<Rightarrow> (let (rs, w') = merge_items its w in (Thrown e # rs, w'))
      | Inr id' \<Rightarrow>
          if id' = [] then (let (rs, w') = merge_items its w in (Returned it # rs, w'))
          else (let (x, w1) = enrich id' it w; (rs, w') = merge_items its w1
                in (Awaited x # rs, w')))"

text \<open>
  \<open>Promise.all\<close>: all the results in order, or the first rejection. A promise rejected
  before \<open>Promise.all\<close> is called is seen before any that settles after its lookups; the
  rejections of the latter all carry the same \<open>TypeError\<close>, so which of them comes first
  does not show.
\<close>

fun thrown :: "started \<Rightarrow> exn option" where
  "thrown (Thrown e) = Some e"
| "thrown _ = None"

fun failed :: "started \<Rightarrow> exn option" where
  "failed (Awaited (Inl e)) = Some e"
| "failed _ = None"

fun fulfilled :: "started \<Rightarrow> jsval option" where
  "fulfilled (Returned v) = Some v"
| "fulfilled (Awaited (Inr v)) = Some v"
| "fulfilled _ = None"

definition promise_all :: "started list \<Rightarrow> exn + jsval list" where
  "promise_all rs =
     (case List.map_filter thrown rs of
        e # _ \<Rightarrow> Inl e
      | [] \<Rightarrow> (case List.map_filter failed rs of
                 e # _ \<Rightarrow> Inl e
               | [] \<Rightarrow> Inr (List.map_filter fulfilled rs)))"

text \<open>
  The catalog fetch shared by the read endpoints: \<open>None\<close> when the upstream answer is
  not a success; a body that is not JSON, or has no array under \<open>items\<close>, is an empty
  catalog.
\<close>

definition catalog_items :: "fetched \<Rightarrow> jsval list option" where
  "catalog_items r =
     (case r of
        Rejected _ \<Rightarrow> None
      | Reply st body \<Rightarrow>
          if \<not> reply_ok r then None
          else Some (case get_prop_opt (case body of Some j \<Rightarrow> j | None \<Rightarrow> Obj []) ''items'' of
                       Arr xs \<Rightarrow> xs
                     | _ \<Rightarrow> []))"

definition handleContent :: "env \<Rightarrow> world \<Rightarrow> response outcome" where
  "handleContent e w =
     (let (r, w1) = do_fetch e Catalog w in
      case r of
        Rejected m \<Rightarrow> (Inl (Error m), w1)
      | Reply _ _ \<Rightarrow>
          (case catalog_items r of
             None \<Rightarrow> (Inr (err 502 ''Upstream fetch failed''), w1)
           | Some items \<Rightarrow>
               let (rs, w2) = merge_items items w1 in
               case promise_all rs of
                 Inl ex \<Rightarrow> (Inl ex, w2)
               | Inr merged \<Rightarrow> (Inr (ok (Obj [(''items'', Arr merged)])), w2)))"

text \<open>
  \<open>items.find((it) => String(it.id) === id || String(it.number) === id)\<close>: the second
  conversion is made only when the first comparison fails.
\<close>

fun find_item :: "string \<Rightarrow> jsval list \<Rightarrow> exn + jsval option" where
  "find_item id' [] = Inr None"
| "find_item id' (it # its) =
     (case get_prop it ''id'' of
        Inl e \<Rightarrow> Inl e
      | Inr i \<Rightarrow>
     (case js_String i of
        Inl e \<Rightarrow> Inl e
      | Inr s \<Rightarrow>
          if s = id' then Inr (Some it)
          else (case js_String (get_prop_opt it ''number'') of
                  Inl e \<Rightarrow> Inl e
                | Inr n \<Rightarrow> if n = id' then Inr (Some it) else find_item id' its)))"

definition handleContentById :: "env \<Rightarrow> string \<Rightarrow> world \<Rightarrow> response outcome" where
  "handleContentById e id' w =
     (let (r, w1) = do_fetch e Catalog w in
      case r of
        Rejected m \<Rightarrow> (Inl (Error m), w1)
      | Reply _ _ \<Rightarrow>
          (case catalog_items r of
             None \<Rightarrow> (Inr (err 502 ''Upstream fetch failed''), w1)
           | Some items \<Rightarrow>
               (case find_item id' items of
                  Inl ex \<Rightarrow> (Inl ex, w1)
                | Inr None \<Rightarrow> (Inr (err 404 ''Item not found''), w1)
                | Inr (Some item) \<Rightarrow>
                    if \<not> truthy item then (Inr (err 404 ''Item not found''), w1)
                    else (let (x, w2) = enrich id' item w1 in
                          case x of
                            Inl ex \<Rightarrow> (Inl ex, w2)
                          | Inr enhanced \<Rightarrow> (Inr (ok enhanced), w2)))))"

subsection \<open>Social interactions\<close>

definition handleLike :: "request \<Rightarrow> world \<Rightarrow> response outcome" where
  "handleLike req w =
     (case get_prop (request_json req) ''id'' of
        Inl ex \<Rightarrow> (Inl ex, w)
      | Inr body_id \<Rightarrow>
     (case js_String (or_else body_id (Str [])) of
        Inl ex \<Rightarrow> (Inl ex, w)
      | Inr id' \<Rightarrow>
          if id' = [] then (Inr (err 400 ''Missing id''), w)
          else
            let key = ''like:'' @ id' @ '':'' @ ip req;
                (marker, w1) = kv_get RateLimit key w
            in if truthy marker then (Inr (err 429 ''Rate limited''), w1)
               else
                 let w2 = kv_put RateLimit key ''1'' (Some 86400) w1;
                     (stored, w3) = kv_get Counts (''likes:'' @ id') w2
                 in case js_Number (or_else stored (Str ''0'')) of
                      Inl ex \<Rightarrow> (Inl ex, w3)
                    | Inr cur \<Rightarrow>
                        let next = jadd cur (Fin 1);
                            w4 = kv_put Counts (''likes:'' @ id') (num_to_string next) None w3
                        in (Inr (ok (Obj [(''ok'', Bool True), (''id'', Str id'),
                                          (''likes'', Num next)])),
                            w4)))"

definition handleRate :: "request \<Rightarrow> world \<Rightarrow> response outcome" where
  "handleRate req w =
     (case get_prop (request_json req) ''id'' of
        Inl ex \<Rightarrow> (Inl ex, w)
      | Inr body_id \<Rightarrow>
     (case js_String (or_else body_id (Str [])) of
        Inl ex \<Rightarrow> (Inl ex, w)
      | Inr id' \<Rightarrow>
     (case get_prop (request_json req) ''rating'' of
        Inl ex \<Rightarrow> (Inl ex, w)
      | Inr body_rating \<Rightarrow>
     (case js_Number (or_else body_rating (Num (Fin 0))) of
        Inl ex \<Rightarrow> (Inl ex, w)
      | Inr rating \<Rightarrow>
          if id' = [] \<or> jless rating (Fin 1) \<or> jless (Fin 5) rating
          then (Inr (err 400 ''Invalid rating (must be 1-5)''), w)
          else
            let key = ''rate:'' @ id' @ '':'' @ ip req;
                (marker, w1) = kv_get RateLimit key w
            in if truthy marker then (Inr (err 429 ''Already rated this item''), w1)
               else
                 let w2 = kv_put RateLimit key ''1'' (Some (86400 * 7)) w1;
                     (currentRating, w3) = kv_get Counts (''rating:'' @ id') w2;
                     (currentCount, w4) = kv_get Counts (''rating_count:'' @ id') w3
                 in case js_Number (or_else currentRating (Num (Fin 0))) of
                      Inl ex \<Rightarrow> (Inl ex, w4)
                    | Inr oldRating \<Rightarrow>
                   (case js_Number (or_else currentCount (Num (Fin 0))) of
                      Inl ex \<Rightarrow> (Inl ex, w4)
                    | Inr oldCount \<Rightarrow>
                        let newCount = jadd oldCount (Fin 1);
                            newRating = (if oldCount = Fin 0 then rating
                                         else jdiv (jadd (jmul oldRating oldCount) rating) newCount);
                            w5 = kv_put Counts (''rating:'' @ id') (toFixed1 newRating) None w4;
                            w6 = kv_put Counts (''rating_count:'' @ id') (num_to_string newCount) None w5
                        in (Inr (ok (Obj [(''ok'', Bool True), (''id'', Str id'),
                                          (''rating'', Num (string_to_number (toFixed1 newRating))),
                                          (''totalRatings'', Num newCount)])),
                            w6))))))"

subsection \<open>Downloads\<close>

definition ALLOWED_ASSET_HOSTS :: "string list" where
  "ALLOWED_ASSET_HOSTS =
     [''github.com'', ''raw.githubusercontent.com'', ''github-releases.githubusercontent.com'',
      ''objects.githubusercontent.com'', ''uploads.github.com'']"

text \<open>
  The proxied response streams the upstream body; the model names that body by the
  asset's URL.
\<close>

definition handleDownload :: "env \<Rightarrow> request \<Rightarrow> world \<Rightarrow> response outcome" where
  "handleDownload e req w =
     (let asset = str_or (search req ''asset'') [];
          id = str_or (search req ''id'') []
      in case url_hostname e asset of
           None \<Rightarrow> (Inr (err 400 ''Invalid asset url''), w)
         | Some host \<Rightarrow>
             if host \<notin> set ALLOWED_ASSET_HOSTS then (Inr (err 400 ''Disallowed asset host''), w)
             else
               let (upstream, w1) = do_fetch e (Asset asset) w in
               case upstream of
                 Rejected m \<Rightarrow> (Inl (Error m), w1)
               | Reply st body \<Rightarrow>
                   if \<not> reply_ok upstream then (new_response ''Asset not found'' st, w1)
                   else if id \<noteq> [] then
                     (let (stored, w2) = kv_get Counts (''downloads:'' @ id) w1 in
                      case js_Number (or_else stored (Str ''0'')) of
                        Inl ex \<Rightarrow> (Inl ex, w2)
                      | Inr cur \<Rightarrow>
                          (Inr (Raw 200 asset),
                           kv_put Counts (''downloads:'' @ id) (num_to_string (jadd cur (Fin 1))) None w2))
                   else (Inr (Raw 200 asset), w1))"

definition handleDownloadTrack :: "request \<Rightarrow> world \<Rightarrow> response outcome" where
  "handleDownloadTrack req w =
     (case get_prop (request_json req) ''itemId'' of
        Inl ex \<Rightarrow> (Inl ex, w)
      | Inr body_itemId \<Rightarrow>
     (case js_String (or_else body_itemId (Str [])) of
        Inl ex \<Rightarrow> (Inl ex, w)
      | Inr itemId \<Rightarrow>
     (case get_prop (request_json req) ''fileName'' of
        Inl ex \<Rightarrow> (Inl ex, w)
      | Inr body_fileName \<Rightarrow>
     (case js_String (or_else body_fileName (Str [])) of
        Inl ex \<Rightarrow> (Inl ex, w)
      | Inr fileName \<Rightarrow>
          if itemId = [] then (Inr (err 400 ''Missing itemId''), w)
          else
            let (stored, w1) = kv_get Counts (''downloads:'' @ itemId) w in
            case js_Number (or_else stored (Str ''0'')) of
              Inl ex \<Rightarrow> (Inl ex, w1)
            | Inr cur \<Rightarrow>
                let w2 = kv_put Counts (''downloads:'' @ itemId)
                           (num_to_string (jadd cur (Fin 1))) None w1
                in (Inr (ok (Obj [(''ok'', Bool True), (''itemId'', Str itemId),
                                  (''downloads'', Num (jadd cur (Fin 1))),
                                  (''fileName'', Str fileName)])),
                    w2)))))"

subsection \<open>Submission flow\<close>

text \<open>
  The optional metadata fields of a submission only feed the issue body and are left
  out.
\<close>

definition sanitize :: "string \<Rightarrow> string" where
  "sanitize name =
     take 120 (map (\<lambda>c. let v = (of_char c :: nat) in
                      if (97 \<le> v \<and> v \<le> 122) \<or> (65 \<le> v \<and> v \<le> 90) \<or> (48 \<le> v \<and> v \<le> 57)
                         \<or> c = CHR ''.'' \<or> c = CHR ''_'' \<or> c = CHR ''-''
                      then c else CHR ''_'') name)"

fun str_includes :: "string \<Rightarrow> string \<Rightarrow> bool" where
  "str_includes [] t = (t = [])"
| "str_includes (c # s) t = (take (length t) (c # s) = t \<or> str_includes s t)"

definition verifyCaptcha :: "env \<Rightarrow> string \<Rightarrow> world \<Rightarrow> bool outcome" where
  "verifyCaptcha e token w =
     (if HCAPTCHA_SECRET e = None \<or> HCAPTCHA_SECRET e = Some [] then (Inr True, w)
      else if token = [] then (Inr False, w)
      else
        let (r, w1) = do_fetch e (CaptchaVerify token) w in
        case reply_json r of
          Inl ex \<Rightarrow> (Inl ex, w1)
        | Inr j \<Rightarrow>
            (case get_prop j ''success'' of
               Inl ex \<Rightarrow> (Inl ex, w1)
             | Inr s \<Rightarrow> (Inr (truthy s), w1)))"

definition release_tag :: "env \<Rightarrow> string" where
  "release_tag e =
     ''ugc-uploads-'' @ digits (utc_year e) @ ''-''
       @ (let m = digits (utc_month e + 1) in if length m < 2 then ''0'' @ m else m)"

definition release_id :: "fetched \<Rightarrow> exn + jsval" where
  "release_id r = (case reply_json r of Inl ex \<Rightarrow> Inl ex | Inr j \<Rightarrow> get_prop j ''id'')"

definition monthlyRelease :: "env \<Rightarrow> world \<Rightarrow> jsval outcome" where
  "monthlyRelease e w =
     (let tag = release_tag e;
          (r, w1) = do_fetch e (ReleaseByTag tag) w
      in case r of
           Rejected m \<Rightarrow> (Inl (Error m), w1)
         | Reply _ _ \<Rightarrow>
             if reply_ok r then (release_id r, w1)
             else
               let (r2, w2) = do_fetch e (ReleaseCreate tag) w1 in
               case r2 of
                 Rejected m \<Rightarrow> (Inl (Error m), w2)
               | Reply _ _ \<Rightarrow>
                   if \<not> reply_ok r2 then (Inl (Error ''Failed to create release''), w2)
                   else (release_id r2, w2))"

definition createIssue ::
  "env \<Rightarrow> string \<Rightarrow> string \<Rightarrow> (string \<times> nat) list \<Rightarrow> world \<Rightarrow> (jsval \<times> jsval) outcome"
where
  "createIssue e category title files w =
     (let (r, w1) = do_fetch e (IssueCreate category title files) w
      in case r of
           Rejected m \<Rightarrow> (Inl (Error m), w1)
         | Reply _ _ \<Rightarrow>
             if \<not> reply_ok r then (Inl (Error ''Issue creation failed''), w1)
             else (case reply_json r of
                     Inl ex \<Rightarrow> (Inl ex, w1)
                   | Inr j \<Rightarrow>
                       (case get_prop j ''number'' of
                          Inl ex \<Rightarrow> (Inl ex, w1)
                        | Inr n \<Rightarrow> (Inr (n, get_prop_opt j ''html_url''), w1))))"

text \<open>
  The upload loop. It ends with the response of an early \<open>return\<close>, or with the list of
  the uploaded assets. For each file the size is compared first; then the upload URL is
  made, which prints the release id, and the file is sent.
\<close>

fun upload_files ::
  "env \<Rightarrow> jsnum \<Rightarrow> jsval \<Rightarrow> js_file list \<Rightarrow> (string \<times> nat) list \<Rightarrow> world
     \<Rightarrow> (response + (string \<times> nat) list) outcome"
where
  "upload_files e mx relId [] filesMeta w = (Inr (Inr filesMeta), w)"
| "upload_files e mx relId (f # fs) filesMeta w =
     (if jless mx (Fin (of_nat (file_size f)))
      then (Inr (Inl (err 413 (''File too large: '' @ file_name f @ '' ('' @ digits (file_size f)
                                 @ '' > '' @ num_to_string mx @ '')''))), w)
      else
        let safe = sanitize (file_name f) in
        case js_String relId of
          Inl ex \<Rightarrow> (Inl ex, w)
        | Inr rel \<Rightarrow>
            let (up, w1) = do_fetch e (AssetUpload rel safe (file_size f)) w
            in case up of
                 Rejected m \<Rightarrow> (Inl (Error m), w1)
               | Reply _ _ \<Rightarrow>
                   if \<not> reply_ok up
                   then (Inr (Inl (err 502 (''Asset upload failed for '' @ file_name f))), w1)
                   else (case reply_json up of
                           Inl ex \<Rightarrow> (Inl ex, w1)
                         | Inr j \<Rightarrow>
                             (case get_prop j ''browser_download_url'' of
                                Inl ex \<Rightarrow> (Inl ex, w1)
                              | Inr _ \<Rightarrow>
                                  upload_files e mx relId fs (filesMeta @ [(safe, file_size f)]) w1)))"

text \<open>
  \<open>raw\<close> is the object built from the non-file entries of the form, a later entry
  replacing an earlier one of the same name; \<open>form.get\<close> yields the first entry of a
  name, file or not, and a file prints as \<open>[object File]\<close>.
\<close>

definition raw_field :: "(string \<times> form_value) list \<Rightarrow> string \<Rightarrow> string option" where
  "raw_field form k =
     map_of (rev (List.map_filter
                    (\<lambda>(n, v). case v of Field s \<Rightarrow> Some (n, s) | Upload _ \<Rightarrow> None) form)) k"

definition form_get_string :: "(string \<times> form_value) list \<Rightarrow> string \<Rightarrow> string" where
  "form_get_string form k =
     (case map_of form k of
        Some (Field s) \<Rightarrow> s
      | Some (Upload _) \<Rightarrow> ''[object File]''
      | None \<Rightarrow> [])"

definition form_files :: "(string \<times> form_value) list \<Rightarrow> js_file list" where
  "form_files form =
     List.map_filter (\<lambda>(n, v). case v of Upload f \<Rightarrow> (if n = ''files'' then Some f else None)
                                        | Field _ \<Rightarrow> None) form"

text \<open>\<open>Number(env.MAX_FILE_BYTES ?? "104857600")\<close>\<close>

definition max_bytes :: "env \<Rightarrow> jsnum" where
  "max_bytes e =
     (case MAX_FILE_BYTES e of
        Unset \<Rightarrow> string_to_number ''104857600''
      | Text s \<Rightarrow> string_to_number s
      | Number n \<Rightarrow> n)"

definition handleSubmit :: "env \<Rightarrow> request \<Rightarrow> world \<Rightarrow> response outcome" where
  "handleSubmit e req w =
     (let ct = str_or (headers req ''content-type'') [] in
      if \<not> str_includes ct ''multipart/form-data'' then (Inr (err 415 ''Use multipart/form-data''), w)
      else
        case form_data req of
          None \<Rightarrow> (Inl (TypeError ''Failed to parse body as FormData''), w)
        | Some form \<Rightarrow>
            let title = norm_str (raw_field form ''title'');
                category = norm_str (raw_field form ''category'');
                game = norm_str (raw_field form ''game'');
                description = norm_str (raw_field form ''description'');
                author = norm_str (raw_field form ''author'');
                captchaToken = str_or (raw_field form ''captchaToken'')
                                 (form_get_string form ''captchaToken'')
            in if title = [] \<or> category = [] \<or> game = [] \<or> description = [] \<or> author = []
               then (Inr (err 400 ''Missing required fields''), w)
               else
                 case verifyCaptcha e captchaToken w of
                   (Inl ex, w1) \<Rightarrow> (Inl ex, w1)
                 | (Inr passed, w1) \<Rightarrow>
                     if \<not> passed then (Inr (err 400 ''Captcha failed''), w1)
                     else
                       let mx = max_bytes e;
                           files = form_files form
                       in case monthlyRelease e w1 of
                            (Inl ex, w2) \<Rightarrow> (Inl ex, w2)
                          | (Inr relId, w2) \<Rightarrow>
                              (case upload_files e mx relId files [] w2 of
                                 (Inl ex, w3) \<Rightarrow> (Inl ex, w3)
                               | (Inr (Inl early), w3) \<Rightarrow> (Inr early, w3)
                               | (Inr (Inr filesMeta), w3) \<Rightarrow>
                                   (case createIssue e category title filesMeta w3 of
                                      (Inl ex, w4) \<Rightarrow> (Inl ex, w4)
                                    | (Inr (number, url), w4) \<Rightarrow>
                                        (Inr (ok (Obj [(''ok'', Bool True),
                                                       (''message'', Str ''Submission created successfully! It will be reviewed and published soon.''),
                                                       (''issueUrl'', url),
                                                       (''submissionId'', number)])),
                                         w4))))"

section \<open>Vocabulary of the properties\<close>

text \<open>
  Names for what the handlers read. \<open>request_id\<close> is \<open>String(body.id || "")\<close> and
  \<open>request_rating\<close> is \<open>Number(body.rating || 0)\<close>, for a body whose properties can be
  read: each is a value, or the exception the conversion throws. \<open>live_count\<close> is
  \<open>Number((await get(k)) || "0")\<close>, the way every handler reads a counter;
  \<open>stored_average\<close> and \<open>stored_ratings\<close> are \<open>Number(currentRating || 0)\<close> and
  \<open>Number(currentCount || 0)\<close>.
\<close>

definition body_field :: "request \<Rightarrow> string \<Rightarrow> jsval" where
  "body_field req k = get_prop_opt (request_json req) k"

definition request_id :: "request \<Rightarrow> exn + string" where
  "request_id req = js_String (or_else (body_field req ''id'') (Str []))"

definition request_rating :: "request \<Rightarrow> exn + jsnum" where
  "request_rating req = js_Number (or_else (body_field req ''rating'') (Num (Fin 0)))"

definition live_count :: "world \<Rightarrow> string \<Rightarrow> jsnum" where
  "live_count w k = string_to_number (str_or (counts w k) ''0'')"

definition stored_number :: "world \<Rightarrow> string \<Rightarrow> jsnum" where
  "stored_number w k =
     (case counts w k of Some v \<Rightarrow> if v \<noteq> [] then string_to_number v else Fin 0 | None \<Rightarrow> Fin 0)"

definition stored_average :: "world \<Rightarrow> string \<Rightarrow> jsnum" where
  "stored_average w item = stored_number w (''rating:'' @ item)"

definition stored_ratings :: "world \<Rightarrow> string \<Rightarrow> jsnum" where
  "stored_ratings w item = stored_number w (''rating_count:'' @ item)"

text \<open>
  The counter under key \<open>k\<close> stands at \<open>n\<close>: the key holds the decimal digits of \<open>n\<close>,
  or it is absent and \<open>n\<close> is zero.
\<close>

definition counter_is :: "world \<Rightarrow> string \<Rightarrow> nat \<Rightarrow> bool" where
  "counter_is w k n = ((counts w k = None \<and> n = 0) \<or> counts w k = Some (digits n))"


text \<open>
  The keys of the likes, downloads and rating-count counters, and the counter stores
  the worker can meet: it only ever writes such a key with the digits of a whole number,
  which as a double is at most \<open>2 ^ 53\<close>.
\<close>

definition is_counter_key :: "string \<Rightarrow> bool" where
  "is_counter_key k =
     (take 6 k = ''likes:'' \<or> take 10 k = ''downloads:'' \<or> take 13 k = ''rating_count:'')"

definition counters_ok :: "world \<Rightarrow> bool" where
  "counters_ok w =
     (\<forall>k v. is_counter_key k \<and> counts w k = Some v \<longrightarrow> (\<exists>n. n \<le> 2 ^ 53 \<and> v = digits n))"

text \<open>
  The incremental mean as the specification writes it:
  \<open>newAverage = oldCount == 0 ? ratingValue : (oldAverage * oldCount + ratingValue) / newCount\<close>
  with \<open>newCount = oldCount + 1\<close>, in double arithmetic.
\<close>

definition spec_new_average :: "jsnum \<Rightarrow> jsnum \<Rightarrow> jsnum \<Rightarrow> jsnum" where
  "spec_new_average oldAverage oldCount ratingValue =
     (if oldCount = Fin 0 then ratingValue
      else jdiv (jadd (jmul oldAverage oldCount) ratingValue) (jadd oldCount (Fin 1)))"

text \<open>
  A number of tenths written with one decimal digit: \<open>one_decimal 43\<close> is \<open>4.3\<close>. And the
  tenth nearest to a rational that is not negative, the upper one of two that are equally
  near.
\<close>

definition one_decimal :: "nat \<Rightarrow> string" where
  "one_decimal n = digits (n div 10) @ ''.'' @ digits (n mod 10)"

definition nearest_tenth :: "rat \<Rightarrow> nat \<Rightarrow> bool" where
  "nearest_tenth q n = (of_nat n / 10 - 1 / 20 \<le> q \<and> q < of_nat n / 10 + 1 / 20)"

text \<open>
  The rating the specification accepts: a whole number from 1 to 5.
\<close>

definition spec_valid_rating :: "jsnum \<Rightarrow> bool" where
  "spec_valid_rating r = (r = Fin 1 \<or> r = Fin 2 \<or> r = Fin 3 \<or> r = Fin 4 \<or> r = Fin 5)"

text \<open>
  The four counter fields of an item with the prefixes of their live keys, and the merge
  precedence as the specification words it: the live counter if present and non-empty,
  cast to a number; else the snapshot's field; else 0.
\<close>

definition counter_fields :: "(string \<times> string) list" where
  "counter_fields =
     [(''likes'', ''likes:''), (''downloads'', ''downloads:''), (''rating'', ''rating:''),
      (''totalRatings'', ''rating_count:'')]"

definition spec_counter_field :: "string option \<Rightarrow> jsval \<Rightarrow> jsval" where
  "spec_counter_field live snapshot =
     (case live of
        Some v \<Rightarrow> if v \<noteq> [] then Num (string_to_number v)
                  else if snapshot = Undefined then Num (Fin 0) else snapshot
      | None \<Rightarrow> if snapshot = Undefined then Num (Fin 0) else snapshot)"

text \<open>
  The merge precedence as the handlers have it: the live counter if present and
  non-empty, cast to a number; else 0 if the snapshot's field is missing or falsy; else
  the snapshot's field, cast to a number for likes, downloads and the rating count, and
  as it is for the rating. \<open>number_of\<close> is \<open>Number(v)\<close> where that does not throw.
\<close>

definition number_of :: "jsval \<Rightarrow> jsnum" where
  "number_of v = (case js_Number v of Inr n \<Rightarrow> n | Inl _ \<Rightarrow> NaN)"

definition merged_counter :: "string \<Rightarrow> string option \<Rightarrow> jsval \<Rightarrow> jsval" where
  "merged_counter f live snapshot =
     (if live \<noteq> None \<and> live \<noteq> Some [] then Num (string_to_number (the live))
      else if \<not> truthy snapshot then Num (Fin 0)
      else if f = ''rating'' then snapshot
      else Num (number_of snapshot))"

text \<open>
  A counter field as the \<open>Item\<close> type declares it: absent or a number (of a JSON
  document, hence finite).
\<close>

definition number_or_absent :: "jsval \<Rightarrow> bool" where
  "number_or_absent v = (case v of Undefined \<Rightarrow> True | Num (Fin _) \<Rightarrow> True | _ \<Rightarrow> False)"

text \<open>
  An item the collection view can merge without throwing: an object whose identifier
  \<open>String\<close> can print and whose likes, downloads and rating count \<open>Number\<close> can read.
\<close>

definition convertible :: "jsval \<Rightarrow> bool" where
  "convertible it =
     (case it of
        Obj kvs \<Rightarrow>
          \<not> isl (item_key it)
          \<and> list_all (\<lambda>f. \<not> isl (js_Number (get_prop_opt it f))) [''likes'', ''downloads'', ''totalRatings'']
      | _ \<Rightarrow> False)"

text \<open>What the collection view makes of one such item.\<close>

definition merged_item :: "world \<Rightarrow> jsval \<Rightarrow> jsval" where
  "merged_item w it =
     (case item_key it of
        Inr i \<Rightarrow> if i = [] then it else (case fst (enrich i it w) of Inr x \<Rightarrow> x | Inl _ \<Rightarrow> it)
      | Inl _ \<Rightarrow> it)"

definition is_read :: "effect \<Rightarrow> bool" where
  "is_read ef = (case ef of KvGet _ _ \<Rightarrow> True | Fetch Catalog \<Rightarrow> True | _ \<Rightarrow> False)"

text \<open>
  An item matches a requested id as the specification words it: its \<open>id\<close> field or its
  legacy \<open>number\<close> field is there and prints as the requested string.
\<close>

definition spec_matches :: "string \<Rightarrow> jsval \<Rightarrow> bool" where
  "spec_matches i it =
     ((get_prop_opt it ''id'' \<noteq> Undefined \<and> js_String (get_prop_opt it ''id'') = Inr i)
      \<or> (get_prop_opt it ''number'' \<noteq> Undefined \<and> js_String (get_prop_opt it ''number'') = Inr i))"

text \<open>
  Between two worlds: no key of the counter store has gone, and every likes, downloads
  and rating-count counter reads as a whole number at least as large as before.
\<close>

definition never_decreased :: "world \<Rightarrow> world \<Rightarrow> bool" where
  "never_decreased w w' =
     ((\<forall>k. counts w k \<noteq> None \<longrightarrow> counts w' k \<noteq> None)
      \<and> (\<forall>k. is_counter_key k \<longrightarrow>
             (\<exists>m n. live_count w k = Fin (of_nat m) \<and> live_count w' k = Fin (of_nat n) \<and> m \<le> n)))"

text \<open>\<open>String(cur + 1)\<close> for the counter under a key.\<close>

definition bump :: "world \<Rightarrow> string \<Rightarrow> string" where
  "bump w k = num_to_string (jadd (live_count w k) (Fin 1))"

text \<open>
  What a handler may do to the counter store: nothing; add one to one counter; or, for a
  rating, write the average and add one to the rating count.
\<close>

definition counts_step :: "world \<Rightarrow> world \<Rightarrow> bool" where
  "counts_step w w' =
     (counts w' = counts w
      \<or> (\<exists>k. is_counter_key k \<and> counts w' = (counts w)(k \<mapsto> bump w k))
      \<or> (\<exists>k x v. is_counter_key k \<and> \<not> is_counter_key x
                 \<and> counts w' = (counts w)(x \<mapsto> v, k \<mapsto> bump w k)))"

text \<open>
  For a submission: \<open>too_large\<close> is \<open>f.size > max\<close>, \<open>captcha_token\<close> is
  \<open>String(raw.captchaToken || form.get("captchaToken") || "")\<close>, \<open>too_large_response\<close>
  is the 413 answer naming a file, and \<open>upload_of\<close> the upload of a file to a release.
\<close>

definition too_large :: "jsnum \<Rightarrow> js_file \<Rightarrow> bool" where
  "too_large mx f = jless mx (Fin (of_nat (file_size f)))"

definition captcha_token :: "(string \<times> form_value) list \<Rightarrow> string" where
  "captcha_token form = str_or (raw_field form ''captchaToken'') (form_get_string form ''captchaToken'')"

definition too_large_response :: "jsnum \<Rightarrow> js_file \<Rightarrow> response" where
  "too_large_response mx f =
     err 413 (''File too large: '' @ file_name f @ '' ('' @ digits (file_size f)
              @ '' > '' @ num_to_string mx @ '')'')"

definition upload_of :: "string \<Rightarrow> js_file \<Rightarrow> effect" where
  "upload_of rel f = Fetch (AssetUpload rel (sanitize (file_name f)) (file_size f))"

text \<open>
  An effect that is neither the creation of an issue nor the upload of a file larger
  than the maximum.
\<close>

definition harmless :: "jsnum \<Rightarrow> effect \<Rightarrow> bool" where
  "harmless mx ef =
     (case ef of
        Fetch (IssueCreate _ _ _) \<Rightarrow> False
      | Fetch (AssetUpload _ _ sz) \<Rightarrow> \<not> jless mx (Fin (of_nat sz))
      | _ \<Rightarrow> True)"

definition extends_harmlessly :: "jsnum \<Rightarrow> world \<Rightarrow> world \<Rightarrow> bool" where
  "extends_harmlessly mx w w' = (\<exists>new. trace w' = trace w @ new \<and> list_all (harmless mx) new)"

text \<open>
  The uploads of the given files to a release succeed, one after the other from the
  given trace on: each is answered with a success status and a JSON body that is not
  \<open>null\<close>.
\<close>

fun uploads_succeed :: "env \<Rightarrow> string \<Rightarrow> js_file list \<Rightarrow> effect list \<Rightarrow> bool" where
  "uploads_succeed e rel [] t = True"
| "uploads_succeed e rel (f # fs) t =
     (case remote e t (AssetUpload rel (sanitize (file_name f)) (file_size f)) of
        Reply st (Some j) \<Rightarrow>
          200 \<le> st \<and> st \<le> 299 \<and> j \<noteq> Null \<and> j \<noteq> Undefined
          \<and> uploads_succeed e rel fs (t @ [upload_of rel f])
      | _ \<Rightarrow> False)"

text \<open>
  What \<open>handleSubmit\<close> checks before the captcha: the content type and the five required
  fields.
\<close>

definition is_multipart :: "request \<Rightarrow> bool" where
  "is_multipart req = str_includes (str_or (headers req ''content-type'') []) ''multipart/form-data''"

definition required_present :: "(string \<times> form_value) list \<Rightarrow> bool" where
  "required_present form =
     (norm_str (raw_field form ''title'') \<noteq> [] \<and> norm_str (raw_field form ''category'') \<noteq> []
      \<and> norm_str (raw_field form ''game'') \<noteq> [] \<and> norm_str (raw_field form ''description'') \<noteq> []
      \<and> norm_str (raw_field form ''author'') \<noteq> [])"

section \<open>Sample inputs\<close>

text \<open>Concrete worlds, deployments and requests on which the theorems below are exercised.\<close>

definition empty_world :: world where
  "empty_world = \<lparr>counts = Map.empty, ratelimit = Map.empty, trace = []\<rparr>"

definition json_request :: "(string \<rightharpoonup> string) \<Rightarrow> jsval option \<Rightarrow> request" where
  "json_request hs b = \<lparr>headers = hs, search = Map.empty, body_json = b, form_data = None\<rparr>"

definition download_request :: "string \<Rightarrow> string \<Rightarrow> request" where
  "download_request asset item =
     \<lparr>headers = Map.empty, search = [''asset'' \<mapsto> asset, ''id'' \<mapsto> item],
      body_json = None, form_data = None\<rparr>"

definition form_request :: "(string \<times> form_value) list \<Rightarrow> request" where
  "form_request form =
     \<lparr>headers = [''content-type'' \<mapsto> ''multipart/form-data; boundary=x''], search = Map.empty,
      body_json = None, form_data = Some form\<rparr>"

text \<open>
  A deployment without captcha and with a 100-byte upload limit, whose remote services
  answer every call with status 200 and the same JSON object, and whose URL parser knows
  two URLs.
\<close>

definition sample_env :: env where
  "sample_env =
     \<lparr>HCAPTCHA_SECRET = None,
      MAX_FILE_BYTES = Text ''100'',
      remote = (\<lambda>t c. Reply 200 (Some (Obj [(''id'', Num (Fin 5)), (''number'', Num (Fin 12)),
                                               (''html_url'', Str ''https://github.com/o/r/issues/12''),
                                               (''browser_download_url'', Str ''https://github.com/a'')]))),
      utc_year = 2025,
      utc_month = 0,
      url_hostname = (\<lambda>s. if s = ''https://github.com/o/r/a.zip'' then Some ''github.com''
                           else if s = ''https://evil.example/a.zip'' then Some ''evil.example''
                           else None)\<rparr>"

definition like_request :: "string \<Rightarrow> string \<Rightarrow> request" where
  "like_request item client =
     \<lparr>headers = [''cf-connecting-ip'' \<mapsto> client], search = Map.empty,
      body_json = Some (Obj [(''id'', Str item)]), form_data = None\<rparr>"


definition rate_request :: "string \<Rightarrow> string \<Rightarrow> jsval \<Rightarrow> request" where
  "rate_request item client rating =
     \<lparr>headers = [''cf-connecting-ip'' \<mapsto> client], search = Map.empty,
      body_json = Some (Obj [(''id'', Str item), (''rating'', rating)]), form_data = None\<rparr>"


definition blank_title_form :: "(string \<times> form_value) list" where
  "blank_title_form =
     [(''title'', Field ''   ''), (''category'', Field ''setup''), (''game'', Field ''iRacing''),
      (''description'', Field ''A setup''), (''author'', Field ''Ann''),
      (''files'', Upload \<lparr>file_name = ''a.zip'', file_size = 10\<rparr>)]"

definition sample_catalog :: "jsval list" where
  "sample_catalog =
     [Obj [(''id'', Num (Fin 1)), (''title'', Str ''First''), (''likes'', Num (Fin 3))],
      Obj [(''number'', Num (Fin 7)), (''title'', Str ''Legacy''), (''rating'', Num (Fin (9 / 2))),
           (''downloads'', Str ''12'')],
      Obj [(''title'', Str ''Nameless'')]]"

definition catalog_env :: "jsval list \<Rightarrow> env" where
  "catalog_env items =
     sample_env\<lparr>remote := (\<lambda>t c. Reply 200 (Some (Obj [(''items'', Arr items)])))\<rparr>"

definition counted_world :: world where
  "counted_world =
     \<lparr>counts = [''likes:1'' \<mapsto> ''10'', ''rating:7'' \<mapsto> ''4.0'', ''rating_count:7'' \<mapsto> ''2''],
      ratelimit = Map.empty, trace = []\<rparr>"

text \<open>
  A complete submission with a 10-byte file followed by a 101-byte file; a deployment
  whose remote refuses every upload, and one whose remote refuses the uploads of more
  than 50 bytes.
\<close>

definition two_file_form :: "(string \<times> form_value) list" where
  "two_file_form =
     [(''title'', Field ''Monza''), (''category'', Field ''setup''), (''game'', Field ''iRacing''),
      (''description'', Field ''A setup''), (''author'', Field ''Ann''),
      (''files'', Upload \<lparr>file_name = ''a b.zip'', file_size = 10\<rparr>),
      (''files'', Upload \<lparr>file_name = ''big.zip'', file_size = 101\<rparr>)]"

definition refusing_env :: env where
  "refusing_env =
     sample_env\<lparr>remote := (\<lambda>t c. case c of AssetUpload _ _ _ \<Rightarrow> Reply 500 None
                                    | _ \<Rightarrow> remote sample_env t c)\<rparr>"

definition picky_env :: env where
  "picky_env =
     sample_env\<lparr>remote := (\<lambda>t c. case c of
                                      AssetUpload _ _ sz \<Rightarrow>
                                        if 50 < sz then Reply 422 None else remote sample_env t c
                                    | _ \<Rightarrow> remote sample_env t c)\<rparr>"

section \<open>Properties\<close>

subsection \<open>Whole numbers as doubles and as decimal strings\<close>

text \<open>
  Every whole number up to \<open>2 ^ 53\<close> is a double, prints as its decimal digits and is
  read back from them; at \<open>2 ^ 53\<close> adding one no longer changes the value.
\<close>

lemma log2floor_bounds: "0 < n \<Longrightarrow> 2 ^ log2floor n \<le> n \<and> n < 2 ^ Suc (log2floor n)"
proof (induction n rule: log2floor.induct)
  case (1 n)
  show ?case
  proof (cases "n < 2")
    case True
    with "1.prems" have "n = 1" by simp
    then show ?thesis by (simp add: log2floor.simps)
  next
    case False
    then have pos: "0 < n div 2" by simp
    from "1.IH" [OF False pos]
    have lo: "2 ^ log2floor (n div 2) \<le> n div 2" and hi: "n div 2 < 2 ^ Suc (log2floor (n div 2))"
      by simp_all
    have eq: "log2floor n = Suc (log2floor (n div 2))"
      using False by (subst log2floor.simps) simp
    from lo have "2 * 2 ^ log2floor (n div 2) \<le> n" by linarith
    moreover from hi have "n < 2 * 2 ^ Suc (log2floor (n div 2))" by linarith
    ultimately show ?thesis by (simp add: eq)
  qed
qed

lemma round_even_of_int [simp]: "round_even (of_int z) = z"
  by (simp add: round_even_def)

lemma fround_of_nat:
  assumes "n \<le> 2 ^ 53"
  shows "fround (of_nat n) = Fin (of_nat n)"
proof (cases "n = 0")
  case True
  then show ?thesis by (simp add: fround_def)
next
  case False
  then have pos: "0 < n" by simp
  define l where "l = log2floor n"
  from log2floor_bounds [OF pos] have lo: "2 ^ l \<le> n" by (simp add: l_def)
  with assms have "(2::nat) ^ l \<le> 2 ^ 53" by linarith
  with power_le_imp_le_exp [of "2::nat" l 53] have l53: "l \<le> 53" by simp
  have be: "binexp (of_nat n) = int l"
    using pos by (simp add: binexp_def l_def)
  show ?thesis
  proof (cases "l \<le> 52")
    case True
    define k where "k = 52 - l"
    have u: "pow2 (int l - 52) = 1 / 2 ^ k"
      using True by (cases "l = 52") (auto simp: pow2_def k_def nat_diff_distrib)
    have "of_nat n * 2 ^ k = (of_int (int (n * 2 ^ k)) :: rat)" by simp
    then have r: "round_even (of_nat n * 2 ^ k) = int (n * 2 ^ k)"
      by (metis round_even_of_int)
    show ?thesis
      using pos True by (simp add: fround_def be u r Let_def)
  next
    case False
    with l53 have l: "l = 53" by simp
    with lo assms have n: "n = 2 ^ 53" by simp
    have "fround 9007199254740992 = Fin 9007199254740992" by code_simp
    then show ?thesis by (simp add: n)
  qed
qed

lemma fround_saturates: "fround (9007199254740992 + 1) = Fin 9007199254740992"
  by code_simp

lemma digit_char_code: "d < 10 \<Longrightarrow> (of_char (digit_char d) :: nat) = 48 + d"
  by (simp add: digit_char_def)

lemma is_digit_digit_char: "d < 10 \<Longrightarrow> is_digit (digit_char d)"
  by (simp add: is_digit_def digit_char_code)

lemma digits_all_digit: "list_all is_digit (digits n)"
proof (induction n rule: digits.induct)
  case (1 n)
  show ?case
  proof (cases "n < 10")
    case True
    then show ?thesis by (subst digits.simps) (simp add: is_digit_digit_char)
  next
    case False
    with "1.IH" show ?thesis by (subst digits.simps) (simp add: is_digit_digit_char)
  qed
qed

lemma digits_nonempty: "digits n \<noteq> []"
  by (subst digits.simps) simp

lemma digits_val_snoc: "digits_val (s @ [c]) = 10 * digits_val s + (of_char c - 48)"
  by (simp add: digits_val_def)

lemma digits_val_digits: "digits_val (digits n) = n"
proof (induction n rule: digits.induct)
  case (1 n)
  show ?case
  proof (cases "n < 10")
    case True
    then show ?thesis
      by (subst digits.simps) (simp add: digits_val_def digit_char_code)
  next
    case False
    with "1.IH" show ?thesis
      by (subst digits.simps) (simp add: digits_val_snoc digit_char_code)
  qed
qed

lemma is_digit_not_space: "is_digit c \<Longrightarrow> \<not> is_space c"
  by (auto simp: is_digit_def is_space_def)

lemma dropWhile_keeps: "s \<noteq> [] \<Longrightarrow> \<not> P (hd s) \<Longrightarrow> dropWhile P s = s"
  by (cases s) simp_all

lemma trim_digits: "trim (digits n) = digits n"
proof -
  have ne: "digits n \<noteq> []" by (rule digits_nonempty)
  have all: "\<forall>c \<in> set (digits n). is_digit c"
    using digits_all_digit [of n] by (simp add: list_all_iff)
  from ne all have "\<not> is_space (hd (digits n))"
    by (simp add: is_digit_not_space)
  with ne have a: "dropWhile is_space (digits n) = digits n" by (rule dropWhile_keeps)
  from ne all have "\<not> is_space (hd (rev (digits n)))"
    by (simp add: hd_rev is_digit_not_space)
  with ne have "dropWhile is_space (rev (digits n)) = rev (digits n)"
    by (simp add: dropWhile_keeps)
  with a show ?thesis by (simp add: trim_def)
qed

lemma is_digit_chars:
  assumes "is_digit c"
  shows "c \<noteq> CHR ''x''" "c \<noteq> CHR ''X''" "c \<noteq> CHR ''o''" "c \<noteq> CHR ''O''"
    "c \<noteq> CHR ''b''" "c \<noteq> CHR ''B''" "c \<noteq> CHR ''-''" "c \<noteq> CHR ''+''" "c \<noteq> CHR ''I''"
  using assms by (auto simp: is_digit_def)

lemma parse_radix_digits: "parse_radix (digits n) = None"
proof (cases "digits n")
  case Nil
  then show ?thesis by (simp add: parse_radix_def)
next
  case (Cons c0 r0)
  show ?thesis
  proof (cases r0)
    case Nil
    with Cons show ?thesis by (simp add: parse_radix_def)
  next
    case (Cons c1 r)
    with \<open>digits n = c0 # r0\<close> digits_all_digit [of n] have "is_digit c1" by simp
    with Cons \<open>digits n = c0 # r0\<close> show ?thesis
      by (simp add: parse_radix_def is_digit_chars)
  qed
qed

lemma parse_unsigned_digits: "parse_unsigned (digits n) = Some (of_nat n)"
proof -
  have all: "\<forall>c \<in> set (digits n). is_digit c"
    using digits_all_digit [of n] by (simp add: list_all_iff)
  then have t: "takeWhile is_digit (digits n) = digits n"
    by (simp add: takeWhile_eq_all_conv)
  from all have d: "dropWhile is_digit (digits n) = []" by simp
  show ?thesis
    by (simp add: parse_unsigned_def t d Let_def digits_nonempty parse_exponent_def
          digits_val_digits pow10_def)
qed

lemma parse_decimal_digits: "parse_decimal (digits n) = Some (fround (of_nat n))"
proof -
  obtain c r where cr: "digits n = c # r"
    using digits_nonempty [of n] by (cases "digits n") auto
  with digits_all_digit [of n] have c: "is_digit c" by simp
  have "digits n \<noteq> ''Infinity''"
    using cr c by (auto simp: is_digit_chars)
  moreover have "hd (digits n) \<noteq> CHR ''-''" "hd (digits n) \<noteq> CHR ''+''"
    using cr c by (simp_all add: is_digit_chars)
  ultimately show ?thesis
    by (simp add: parse_decimal_def Let_def parse_unsigned_digits)
qed

lemma string_to_number_digits: "string_to_number (digits n) = fround (of_nat n)"
  by (simp add: string_to_number_def trim_digits digits_nonempty parse_radix_digits
        parse_decimal_digits)

lemma num_to_string_of_nat:
  assumes "n \<le> 2 ^ 53"
  shows "num_to_string (Fin (of_nat n)) = digits n"
proof (cases "n = 0")
  case True
  have "char_of (48::nat) = CHR ''0''" by code_simp
  with True show ?thesis by (simp add: digits.simps digit_char_def)
next
  case False
  have "(of_nat n :: rat) \<le> of_nat (2 ^ 53)" using assms by (simp only: of_nat_le_iff)
  then have "(of_nat n :: rat) \<le> 2 ^ 53" by simp
  with False show ?thesis by (simp add: pos_to_string_def)
qed

text \<open>Reading a stored counter and adding one.\<close>

lemma counter_next:
  assumes "n < 2 ^ 53"
  shows "jadd (string_to_number (digits n)) (Fin 1) = Fin (of_nat (Suc n))"
    and "num_to_string (jadd (string_to_number (digits n)) (Fin 1)) = digits (Suc n)"
proof -
  from assms have le: "n \<le> 2 ^ 53" "Suc n \<le> 2 ^ 53" by simp_all
  have "jadd (string_to_number (digits n)) (Fin 1) = fround (of_nat n + 1)"
    by (simp add: string_to_number_digits fround_of_nat [OF le(1)])
  also have "of_nat n + (1::rat) = of_nat (Suc n)" by simp
  finally show a: "jadd (string_to_number (digits n)) (Fin 1) = Fin (of_nat (Suc n))"
    by (simp only: fround_of_nat [OF le(2)])
  show "num_to_string (jadd (string_to_number (digits n)) (Fin 1)) = digits (Suc n)"
    by (simp only: a num_to_string_of_nat [OF le(2)])
qed

subsection \<open>Rounding to one decimal digit\<close>

lemma digits_small: "n < 10 \<Longrightarrow> digits n = [digit_char n]"
  by (subst digits.simps) simp

lemma digits_large: "10 \<le> n \<Longrightarrow> digits n = digits (n div 10) @ [digit_char (n mod 10)]"
  by (subst digits.simps) simp

lemma digit_char_zero: "digit_char 0 = CHR ''0''"
proof -
  have "char_of (48::nat) = CHR ''0''" by code_simp
  then show ?thesis by (simp add: digit_char_def)
qed

lemma fixed1_digits_one_decimal:
  "fixed1_digits a = one_decimal (nat \<lfloor>a * 10 + 1 / 2\<rfloor>)"
proof -
  define n where "n = nat \<lfloor>a * 10 + 1 / 2\<rfloor>"
  have lo: "digits (n mod 10) = [digit_char (n mod 10)]" by (simp add: digits_small)
  show ?thesis
  proof (cases "n < 10")
    case True
    then have "digits (n div 10) = ''0''" by (simp add: digits_small digit_char_zero)
    with True lo show ?thesis
      by (simp add: fixed1_digits_def one_decimal_def n_def [symmetric] Let_def digits_small)
  next
    case False
    then have "digits n = digits (n div 10) @ [digit_char (n mod 10)]" by (simp add: digits_large)
    with False lo show ?thesis
      by (simp add: fixed1_digits_def one_decimal_def n_def [symmetric] Let_def)
  qed
qed

lemma nearest_tenth_round:
  assumes "0 \<le> q"
  shows "nearest_tenth q (nat \<lfloor>q * 10 + 1 / 2\<rfloor>)"
proof -
  define z where "z = \<lfloor>q * 10 + 1 / 2\<rfloor>"
  from assms have "0 \<le> q * 10 + 1 / 2" by simp
  then have z0: "0 \<le> z" unfolding z_def by simp
  have a: "of_int z \<le> q * 10 + 1 / 2" unfolding z_def by (rule of_int_floor_le)
  have b: "q * 10 + 1 / 2 < of_int z + 1" unfolding z_def by linarith
  from z0 have n: "(of_nat (nat z) :: rat) = of_int z" by simp
  from a b show ?thesis
    unfolding nearest_tenth_def z_def [symmetric] n by (simp add: field_simps)
qed

lemma nearest_tenth_unique:
  assumes "nearest_tenth q m" and "nearest_tenth q n"
  shows "m = n"
proof -
  from assms have "(of_nat m :: rat) < of_nat n + 1" and "(of_nat n :: rat) < of_nat m + 1"
    unfolding nearest_tenth_def by linarith+
  then have "(of_nat m :: rat) < of_nat (n + 1)" and "(of_nat n :: rat) < of_nat (m + 1)"
    by simp_all
  then have "m < n + 1" and "n < m + 1" by (simp_all only: of_nat_less_iff)
  then show ?thesis by simp
qed

text \<open>
  \<open>toFixed(1)\<close> of a number from 0 up to \<open>10 ^ 21\<close> is the nearest tenth, the upper one
  of two equally near, with one decimal digit.
\<close>

lemma toFixed1_rounds:
  assumes "0 \<le> q" and "q < 10 ^ 21"
  shows "\<exists>n. nearest_tenth q n \<and> toFixed1 (Fin q) = one_decimal n"
proof -
  from assms have "toFixed1 (Fin q) = one_decimal (nat \<lfloor>q * 10 + 1 / 2\<rfloor>)"
    by (simp add: fixed1_digits_one_decimal)
  with nearest_tenth_round [OF assms(1)] show ?thesis by blast
qed

lemma toFixed1_nearest:
  assumes "0 \<le> q" and "q < 10 ^ 21" and "nearest_tenth q n"
  shows "toFixed1 (Fin q) = one_decimal n"
proof -
  from toFixed1_rounds [OF assms(1,2)] obtain m where
    m: "nearest_tenth q m" "toFixed1 (Fin q) = one_decimal m" by blast
  from nearest_tenth_unique [OF m(1) assms(3)] m(2) show ?thesis by simp
qed


lemma is_digit_not_dot: "is_digit c \<Longrightarrow> c \<noteq> CHR ''.''"
  by (auto simp: is_digit_def)



subsection \<open>Reading the stores\<close>

text \<open>The conversions the handlers apply to what they read from a store.\<close>

lemma live_count_read:
  "js_Number (or_else (kv_value (counts w) k) (Str ''0'')) = Inr (live_count w k)"
  by (simp add: live_count_def kv_value_def or_else_def str_or_def split: option.splits)

lemma stored_number_read:
  "js_Number (or_else (kv_value (counts w) k) (Num (Fin 0))) = Inr (stored_number w k)"
  by (simp add: stored_number_def kv_value_def or_else_def split: option.splits)

lemma string_to_number_zero: "string_to_number ''0'' = Fin 0"
  by code_simp

lemma stored_ratings_live: "stored_ratings w item = live_count w (''rating_count:'' @ item)"
  by (simp add: stored_ratings_def stored_number_def live_count_def str_or_def
        string_to_number_zero split: option.splits)

lemma live_count_counter:
  assumes "counter_is w k n" and "n \<le> 2 ^ 53"
  shows "live_count w k = Fin (of_nat n)"
proof (cases "counts w k")
  case None
  with assms(1) have "n = 0" by (simp add: counter_is_def)
  with None show ?thesis
    by (simp add: live_count_def str_or_def string_to_number_zero)
next
  case (Some v)
  with assms(1) have "v = digits n" by (simp add: counter_is_def)
  with Some show ?thesis
    by (simp add: live_count_def str_or_def digits_nonempty
          string_to_number_digits fround_of_nat [OF assms(2)])
qed

lemma add_one_exact:
  assumes "n < 2 ^ 53"
  shows "jadd (Fin (of_nat n)) (Fin 1) = Fin (of_nat (Suc n))"
    and "num_to_string (Fin (of_nat (Suc n))) = digits (Suc n)"
proof -
  from assms have le: "Suc n \<le> 2 ^ 53" by simp
  have "of_nat n + (1::rat) = of_nat (Suc n)" by simp
  then show a: "jadd (Fin (of_nat n)) (Fin 1) = Fin (of_nat (Suc n))"
    by (simp only: jadd.simps fround_of_nat [OF le])
  show "num_to_string (Fin (of_nat (Suc n))) = digits (Suc n)"
    by (simp only: num_to_string_of_nat [OF le])
qed

lemma err_json: "err st m = Json st (Obj [(''ok'', Bool False), (''error'', Str m)])"
  by (simp add: err_def)

lemma err_not_ok: "st \<noteq> 200 \<Longrightarrow> err st m \<noteq> ok d"
  by (simp add: err_def ok_def)

subsection \<open>Requests rejected before any effect\<close>

text \<open>
  C10. A like or rate request whose body is not valid JSON is handled as the empty
  object: the item id is missing, the handler answers 400 (it does not throw, so the
  router's generic 500 is not reached), and the world is returned as it was: nothing
  was read from or written to either store.
\<close>

theorem invalid_json_rejected_untouched:
  assumes "body_json req = None"
  shows "handleLike req w = (Inr (err 400 ''Missing id''), w)
       \<and> handleRate req w = (Inr (err 400 ''Invalid rating (must be 1-5)''), w)"
  using assms
  by (simp add: handleLike_def handleRate_def request_json_def get_prop_def or_else_def)

theorem invalid_json_rejected_untouched_witness:
  "body_json (json_request Map.empty None) = None
   \<and> handleLike (json_request Map.empty None) empty_world
       = (Inr (err 400 ''Missing id''), empty_world)
   \<and> handleRate (json_request Map.empty None) empty_world
       = (Inr (err 400 ''Invalid rating (must be 1-5)''), empty_world)"
  using invalid_json_rejected_untouched [of "json_request Map.empty None" empty_world]
  by (simp add: json_request_def)

text \<open>
  C7. A download whose asset URL the platform cannot parse is answered 400
  (\<open>InvalidRequest\<close>), and one whose host is not among \<open>ALLOWED_ASSET_HOSTS\<close> is
  answered 400 (the \<open>Forbidden\<close> class of the error taxonomy). In both cases the world
  is returned as it was: no upstream fetch, no read or write of a download counter. The
  asset URL is \<open>url.searchParams.get("asset") || ""\<close>.
\<close>

theorem download_rejects_before_fetch:
  "(url_hostname e (str_or (search req ''asset'') []) = None
      \<longrightarrow> handleDownload e req w = (Inr (err 400 ''Invalid asset url''), w))
   \<and> (\<forall>host. url_hostname e (str_or (search req ''asset'') []) = Some host
              \<and> host \<notin> set ALLOWED_ASSET_HOSTS
      \<longrightarrow> handleDownload e req w = (Inr (err 400 ''Disallowed asset host''), w))"
  by (simp add: handleDownload_def Let_def)

theorem download_rejects_before_fetch_witness:
  "handleDownload sample_env (download_request ''not a url'' ''7'') empty_world
     = (Inr (err 400 ''Invalid asset url''), empty_world)
   \<and> handleDownload sample_env (download_request ''https://evil.example/a.zip'' ''7'') empty_world
     = (Inr (err 400 ''Disallowed asset host''), empty_world)"
  using download_rejects_before_fetch [of sample_env "download_request ''not a url'' ''7''" empty_world]
        download_rejects_before_fetch
          [of sample_env "download_request ''https://evil.example/a.zip'' ''7''" empty_world]
  by (simp add: sample_env_def download_request_def str_or_def ALLOWED_ASSET_HOSTS_def)

subsection \<open>Likes\<close>

lemma live_count_frame:
  "live_count (w\<lparr>trace := t\<rparr>) k = live_count w k"
  "live_count (w\<lparr>ratelimit := r\<rparr>) k = live_count w k"
  "live_count (w\<lparr>ratelimit := r, trace := t\<rparr>) k = live_count w k"
  by (simp_all add: live_count_def)

lemma stored_number_frame:
  "stored_number (w\<lparr>trace := t\<rparr>) k = stored_number w k"
  "stored_number (w\<lparr>ratelimit := r\<rparr>) k = stored_number w k"
  "stored_number (w\<lparr>ratelimit := r, trace := t\<rparr>) k = stored_number w k"
  by (simp_all add: stored_number_def)

lemma request_id_prop:
  assumes "request_id req = Inr i" and "i \<noteq> []"
  shows "get_prop (request_json req) ''id'' = Inr (body_field req ''id'')"
proof (cases "get_prop (request_json req) ''id''")
  case (Inl e)
  with assms show ?thesis
    by (simp add: request_id_def body_field_def get_prop_opt_def or_else_def)
next
  case (Inr v)
  then show ?thesis
    by (simp add: body_field_def get_prop_opt_def)
qed


lemma handleLike_accepted:
  assumes "request_id req = Inr i" and "i \<noteq> []"
    and "\<not> truthy (kv_value (ratelimit w) (''like:'' @ i @ '':'' @ ip req))"
  shows "handleLike req w =
           (Inr (ok (Obj [(''ok'', Bool True), (''id'', Str i),
                          (''likes'', Num (jadd (live_count w (''likes:'' @ i)) (Fin 1)))])),
            w\<lparr>ratelimit := (ratelimit w)(''like:'' @ i @ '':'' @ ip req \<mapsto> ''1''),
              counts := (counts w)(''likes:'' @ i \<mapsto>
                          num_to_string (jadd (live_count w (''likes:'' @ i)) (Fin 1))),
              trace := trace w @
                [KvGet RateLimit (''like:'' @ i @ '':'' @ ip req),
                 KvPut RateLimit (''like:'' @ i @ '':'' @ ip req) ''1'' (Some 86400),
                 KvGet Counts (''likes:'' @ i),
                 KvPut Counts (''likes:'' @ i)
                   (num_to_string (jadd (live_count w (''likes:'' @ i)) (Fin 1))) None]\<rparr>)"
  using assms(2,3)
  by (simp add: handleLike_def request_id_prop [OF assms(1,2)] assms(1) [unfolded request_id_def]
        kv_get_def kv_put_def Let_def live_count_read live_count_frame)

lemma like_step:
  assumes id: "request_id req = Inr i" "i \<noteq> []"
    and free: "ratelimit w (''like:'' @ i @ '':'' @ ip req) = None"
    and cnt: "counter_is w (''likes:'' @ i) n" and n: "n < 2 ^ 53"
  shows "handleLike req w =
           (Inr (ok (Obj [(''ok'', Bool True), (''id'', Str i),
                          (''likes'', Num (Fin (of_nat (Suc n))))])),
            w\<lparr>ratelimit := (ratelimit w)(''like:'' @ i @ '':'' @ ip req \<mapsto> ''1''),
              counts := (counts w)(''likes:'' @ i \<mapsto> digits (Suc n)),
              trace := trace w @
                [KvGet RateLimit (''like:'' @ i @ '':'' @ ip req),
                 KvPut RateLimit (''like:'' @ i @ '':'' @ ip req) ''1'' (Some 86400),
                 KvGet Counts (''likes:'' @ i),
                 KvPut Counts (''likes:'' @ i) (digits (Suc n)) None]\<rparr>)"
proof -
  from n have le: "n \<le> 2 ^ 53" by simp
  have lc: "live_count w (''likes:'' @ i) = Fin (of_nat n)"
    by (rule live_count_counter [OF cnt le])
  from free have "\<not> truthy (kv_value (ratelimit w) (''like:'' @ i @ '':'' @ ip req))"
    by (simp add: kv_value_def)
  from handleLike_accepted [OF id this] show ?thesis
    by (simp only: lc add_one_exact [OF n])
qed


lemma like_request_reads:
  "request_id (like_request item client) = Inr item"
  "client \<noteq> [] \<Longrightarrow> ip (like_request item client) = client"
  by (simp_all add: like_request_def request_id_def body_field_def request_json_def
        get_prop_opt_def get_prop_def or_else_def ip_def str_or_def)


subsection \<open>Ratings\<close>

lemma body_readable:
  assumes "request_id req = Inr i" and "i \<noteq> []"
  shows "get_prop (request_json req) k = Inr (body_field req k)"
proof (cases "request_json req")
  case Undefined
  with assms show ?thesis
    by (simp add: request_id_def body_field_def get_prop_opt_def get_prop_def or_else_def)
next
  case Null
  with assms show ?thesis
    by (simp add: request_id_def body_field_def get_prop_opt_def get_prop_def or_else_def)
qed (simp_all add: body_field_def get_prop_opt_def get_prop_def)

lemma handleRate_accepted:
  assumes id: "request_id req = Inr i" "i \<noteq> []"
    and rt: "request_rating req = Inr r"
    and lo: "\<not> jless r (Fin 1)" and hi: "\<not> jless (Fin 5) r"
    and free: "\<not> truthy (kv_value (ratelimit w) (''rate:'' @ i @ '':'' @ ip req))"
  shows "handleRate req w =
     (Inr (ok (Obj [(''ok'', Bool True), (''id'', Str i),
                    (''rating'', Num (string_to_number (toFixed1
                       (spec_new_average (stored_average w i) (stored_ratings w i) r)))),
                    (''totalRatings'', Num (jadd (stored_ratings w i) (Fin 1)))])),
      w\<lparr>ratelimit := (ratelimit w)(''rate:'' @ i @ '':'' @ ip req \<mapsto> ''1''),
        counts := (counts w)
          (''rating:'' @ i \<mapsto>
             toFixed1 (spec_new_average (stored_average w i) (stored_ratings w i) r),
           ''rating_count:'' @ i \<mapsto> num_to_string (jadd (stored_ratings w i) (Fin 1))),
        trace := trace w @
          [KvGet RateLimit (''rate:'' @ i @ '':'' @ ip req),
           KvPut RateLimit (''rate:'' @ i @ '':'' @ ip req) ''1'' (Some 604800),
           KvGet Counts (''rating:'' @ i),
           KvGet Counts (''rating_count:'' @ i),
           KvPut Counts (''rating:'' @ i)
             (toFixed1 (spec_new_average (stored_average w i) (stored_ratings w i) r)) None,
           KvPut Counts (''rating_count:'' @ i)
             (num_to_string (jadd (stored_ratings w i) (Fin 1))) None]\<rparr>)"
  unfolding handleRate_def body_readable [OF id]
  using id(2) lo hi free
  by (simp add: id(1) [unfolded request_id_def] rt [unfolded request_rating_def]
        kv_get_def kv_put_def Let_def stored_number_read stored_number_frame
        stored_average_def stored_ratings_def spec_new_average_def)


lemma rate_request_reads:
  "request_id (rate_request item client v) = Inr item"
  "request_rating (rate_request item client v) = js_Number (or_else v (Num (Fin 0)))"
  "client \<noteq> [] \<Longrightarrow> ip (rate_request item client v) = client"
  "request_json (rate_request item client v) = Obj [(''id'', Str item), (''rating'', v)]"
  by (simp_all add: rate_request_def request_id_def request_rating_def body_field_def
        request_json_def get_prop_opt_def get_prop_def or_else_def ip_def str_or_def)




subsection \<open>Rating validation\<close>

text \<open>
  C2, as stated, fails. The rating 2.5 is not a whole number from 1 to 5, yet the request
  is accepted: the answer is 200, and the rate-limit marker, the average and the count
  are written.
\<close>

theorem rate_accepts_fractional_rating:
  "request_rating (rate_request ''a'' ''1.1.1.1'' (Num (Fin (5 / 2)))) = Inr (Fin (5 / 2))
   \<and> \<not> spec_valid_rating (Fin (5 / 2))
   \<and> fst (handleRate (rate_request ''a'' ''1.1.1.1'' (Num (Fin (5 / 2)))) empty_world)
       = Inr (ok (Obj [(''ok'', Bool True), (''id'', Str ''a''), (''rating'', Num (Fin (5 / 2))),
                       (''totalRatings'', Num (Fin 1))]))
   \<and> counts (snd (handleRate (rate_request ''a'' ''1.1.1.1'' (Num (Fin (5 / 2)))) empty_world))
       = [''rating:a'' \<mapsto> ''2.5'', ''rating_count:a'' \<mapsto> ''1'']
   \<and> ratelimit (snd (handleRate (rate_request ''a'' ''1.1.1.1'' (Num (Fin (5 / 2)))) empty_world))
       = [''rate:a:1.1.1.1'' \<mapsto> ''1'']"
proof -
  let ?req = "rate_request ''a'' ''1.1.1.1'' (Num (Fin (5 / 2)))"
  have rid: "request_id ?req = Inr ''a''" "''a'' \<noteq> []"
    and rr: "request_rating ?req = Inr (Fin (5 / 2))"
    and rip: "ip ?req = ''1.1.1.1''"
    by (simp_all add: rate_request_reads or_else_def)
  have h2: "\<not> jless (Fin (5 / 2)) (Fin 1)" "\<not> jless (Fin 5) (Fin (5 / 2))"
    by simp_all
  have h3: "\<not> truthy (kv_value (ratelimit empty_world) (''rate:'' @ ''a'' @ '':'' @ ip ?req))"
    by (simp add: kv_value_def empty_world_def)
  have s0: "stored_ratings empty_world ''a'' = Fin 0" "stored_average empty_world ''a'' = Fin 0"
    by (simp_all add: stored_ratings_def stored_average_def stored_number_def empty_world_def)
  have a0: "spec_new_average (Fin 0) (Fin 0) (Fin (5 / 2)) = Fin (5 / 2)"
    by (simp add: spec_new_average_def)
  have e0: "toFixed1 (Fin (5 / 2)) = ''2.5''" "string_to_number ''2.5'' = Fin (5 / 2)"
    "num_to_string (Fin 1) = ''1''" "jadd (Fin 0) (Fin 1) = Fin 1"
    by code_simp+
  have ew: "counts empty_world = Map.empty" "ratelimit empty_world = Map.empty"
    by (simp_all add: empty_world_def)
  note step = handleRate_accepted [OF rid rr h2 h3, unfolded rip s0 a0 e0 append.simps]
  have "\<not> spec_valid_rating (Fin (5 / 2))"
    by (simp add: spec_valid_rating_def)
  moreover have "fst (handleRate ?req empty_world)
       = Inr (ok (Obj [(''ok'', Bool True), (''id'', Str ''a''), (''rating'', Num (Fin (5 / 2))),
                       (''totalRatings'', Num (Fin 1))]))"
    by (simp add: step)
  moreover have "counts (snd (handleRate ?req empty_world))
       = [''rating:a'' \<mapsto> ''2.5'', ''rating_count:a'' \<mapsto> ''1'']"
    by (simp add: step ew)
  moreover have "ratelimit (snd (handleRate ?req empty_world)) = [''rate:a:1.1.1.1'' \<mapsto> ''1'']"
    by (simp add: step ew)
  ultimately show ?thesis using rr by blast
qed

text \<open>
  C2, amended. Take a rate request whose body can be read, whose \<open>String(body.id || "")\<close>
  is a string \<open>i\<close> and whose \<open>Number(body.rating || 0)\<close> is a number \<open>r\<close> (neither
  conversion throws). If \<open>i\<close> is empty, or \<open>r\<close> is below 1 or above 5, the request is
  answered 400 with the world as it was: no read or write of either store. A missing
  rating reads as 0.
\<close>

theorem rate_rejects_out_of_range:
  assumes "request_json req \<noteq> Null" and "request_json req \<noteq> Undefined"
    and "request_id req = Inr i" and "request_rating req = Inr r"
    and "i = [] \<or> jless r (Fin 1) \<or> jless (Fin 5) r"
  shows "handleRate req w = (Inr (err 400 ''Invalid rating (must be 1-5)''), w)"
proof -
  have r: "\<And>k. get_prop (request_json req) k = Inr (body_field req k)"
    using assms(1,2)
    by (cases "request_json req") (simp_all add: body_field_def get_prop_opt_def get_prop_def)
  from assms(5) show ?thesis
    unfolding handleRate_def r
    by (auto simp: assms(3) [unfolded request_id_def] assms(4) [unfolded request_rating_def])
qed

theorem rate_rejects_out_of_range_witness:
  "request_json (rate_request ''a'' ''1.1.1.1'' (Num (Fin 6))) \<noteq> Null
   \<and> request_json (rate_request ''a'' ''1.1.1.1'' (Num (Fin 6))) \<noteq> Undefined
   \<and> request_id (rate_request ''a'' ''1.1.1.1'' (Num (Fin 6))) = Inr ''a''
   \<and> request_rating (rate_request ''a'' ''1.1.1.1'' (Num (Fin 6))) = Inr (Fin 6)
   \<and> jless (Fin 5) (Fin 6)
   \<and> handleRate (rate_request ''a'' ''1.1.1.1'' (Num (Fin 6))) empty_world
       = (Inr (err 400 ''Invalid rating (must be 1-5)''), empty_world)
   \<and> request_rating (rate_request ''a'' ''1.1.1.1'' (Num (Fin 0))) = Inr (Fin 0)
   \<and> jless (Fin 0) (Fin 1)
   \<and> handleRate (rate_request ''a'' ''1.1.1.1'' (Num (Fin 0))) empty_world
       = (Inr (err 400 ''Invalid rating (must be 1-5)''), empty_world)
   \<and> request_id (rate_request [] ''1.1.1.1'' (Num (Fin 3))) = Inr []
   \<and> handleRate (rate_request [] ''1.1.1.1'' (Num (Fin 3))) empty_world
       = (Inr (err 400 ''Invalid rating (must be 1-5)''), empty_world)"
proof -
  have a: "request_rating (rate_request ''a'' ''1.1.1.1'' (Num (Fin 6))) = Inr (Fin 6)"
    "request_rating (rate_request ''a'' ''1.1.1.1'' (Num (Fin 0))) = Inr (Fin 0)"
    "request_rating (rate_request [] ''1.1.1.1'' (Num (Fin 3))) = Inr (Fin 3)"
    by (simp_all add: rate_request_reads or_else_def)
  have j: "jless (Fin 5) (Fin 6)" "jless (Fin 0) (Fin 1)" by simp_all
  have n: "\<And>x c v. request_json (rate_request x c v) \<noteq> Null"
    "\<And>x c v. request_json (rate_request x c v) \<noteq> Undefined"
    by (simp_all add: rate_request_reads)
  from rate_rejects_out_of_range [OF n rate_request_reads(1) a(1), of empty_world]
       rate_rejects_out_of_range [OF n rate_request_reads(1) a(2), of empty_world]
       rate_rejects_out_of_range [OF n rate_request_reads(1) a(3), of empty_world]
       a j n rate_request_reads(1)
  show ?thesis by simp
qed

text \<open>
  Two inputs the amended claim leaves out. A rating that is not numeric reads as \<open>NaN\<close>,
  which is neither below 1 nor above 5: the request passes the range check, \<open>NaN\<close> is
  stored as the average, and the response carries \<open>null\<close>. And an id that \<open>String\<close>
  cannot convert makes the handler throw, with the world as it was.
\<close>

lemma rate_accepts_non_numeric_rating:
  "request_rating (rate_request ''a'' ''1.1.1.1'' (Str ''abc'')) = Inr NaN
   \<and> fst (handleRate (rate_request ''a'' ''1.1.1.1'' (Str ''abc'')) empty_world)
       = Inr (Json 200 (Obj [(''ok'', Bool True), (''id'', Str ''a''), (''rating'', Null),
                             (''totalRatings'', Num (Fin 1))]))
   \<and> counts (snd (handleRate (rate_request ''a'' ''1.1.1.1'' (Str ''abc'')) empty_world))
       = [''rating:a'' \<mapsto> ''NaN'', ''rating_count:a'' \<mapsto> ''1'']"
proof -
  let ?req = "rate_request ''a'' ''1.1.1.1'' (Str ''abc'')"
  have nan: "string_to_number ''abc'' = NaN" by code_simp
  have rid: "request_id ?req = Inr ''a''" "''a'' \<noteq> []"
    and rr: "request_rating ?req = Inr NaN"
    and rip: "ip ?req = ''1.1.1.1''"
    by (simp_all add: rate_request_reads or_else_def nan)
  have h2: "\<not> jless NaN (Fin 1)" "\<not> jless (Fin 5) NaN"
    by simp_all
  have h3: "\<not> truthy (kv_value (ratelimit empty_world) (''rate:'' @ ''a'' @ '':'' @ ip ?req))"
    by (simp add: kv_value_def empty_world_def)
  have s0: "stored_ratings empty_world ''a'' = Fin 0" "stored_average empty_world ''a'' = Fin 0"
    by (simp_all add: stored_ratings_def stored_average_def stored_number_def empty_world_def)
  have a0: "spec_new_average (Fin 0) (Fin 0) NaN = NaN"
    by (simp add: spec_new_average_def)
  have e0: "toFixed1 NaN = ''NaN''" "string_to_number ''NaN'' = NaN"
    "num_to_string (Fin 1) = ''1''" "jadd (Fin 0) (Fin 1) = Fin 1"
    by code_simp+
  have ew: "counts empty_world = Map.empty" by (simp add: empty_world_def)
  note step = handleRate_accepted [OF rid rr h2 h3, unfolded rip s0 a0 e0 append.simps]
  show ?thesis by (simp add: rr step ew ok_def)
qed

lemma unconvertible_id_throws:
  "handleRate (json_request Map.empty (Some (Obj [(''id'', Obj [(''toString'', Num (Fin 1))]),
                                     (''rating'', Num (Fin 0))]))) w
     = (Inl (TypeError ''Cannot convert object to primitive value''), w)
   \<and> handleLike (json_request Map.empty (Some (Obj [(''id'', Obj [(''toString'', Num (Fin 1))])]))) w
     = (Inl (TypeError ''Cannot convert object to primitive value''), w)"
  by (simp add: handleRate_def handleLike_def request_json_def json_request_def get_prop_def
        or_else_def)

subsection \<open>Submission: required fields\<close>

text \<open>
  C5. A multipart submission in which one of the five required fields is empty after
  trimming (or missing, which trims to the empty string) is answered 400 with the world
  as it was: the trace has no new entry, so no captcha verification, no release lookup
  or creation, no upload and no issue creation was requested.
\<close>

theorem submit_missing_field_rejected:
  assumes "str_includes (str_or (headers req ''content-type'') []) ''multipart/form-data''"
    and "form_data req = Some form"
    and "\<exists>k \<in> {''title'', ''category'', ''game'', ''description'', ''author''}.
           norm_str (raw_field form k) = []"
  shows "handleSubmit e req w = (Inr (err 400 ''Missing required fields''), w)"
  using assms by (auto simp: handleSubmit_def Let_def)

theorem submit_missing_field_rejected_witness:
  "str_includes (str_or (headers (form_request blank_title_form) ''content-type'') [])
     ''multipart/form-data''
   \<and> form_data (form_request blank_title_form) = Some blank_title_form
   \<and> norm_str (raw_field blank_title_form ''title'') = []
   \<and> handleSubmit sample_env (form_request blank_title_form) empty_world
       = (Inr (err 400 ''Missing required fields''), empty_world)"
proof -
  have a: "str_includes (str_or (headers (form_request blank_title_form) ''content-type'') [])
             ''multipart/form-data''"
    by (simp add: form_request_def str_or_def)
  have b: "form_data (form_request blank_title_form) = Some blank_title_form"
    by (simp add: form_request_def)
  have c: "norm_str (raw_field blank_title_form ''title'') = []"
    by code_simp
  then have d: "\<exists>k \<in> {''title'', ''category'', ''game'', ''description'', ''author''}.
           norm_str (raw_field blank_title_form k) = []"
    by blast
  from submit_missing_field_rejected [OF a b d, of sample_env empty_world] a b c
  show ?thesis by blast
qed

text \<open>A field made of no-break spaces (U+00A0) is empty after trimming as well.\<close>

lemma no_break_space_trimmed: "norm_str (Some [CHR 0xA0, CHR '' '', CHR 0xA0]) = []"
  by code_simp

subsection \<open>The collection view\<close>

lemma get_prop_opt_Obj:
  "get_prop_opt (Obj kvs) k = (case map_of kvs k of Some x \<Rightarrow> x | None \<Rightarrow> Undefined)"
  by (simp add: get_prop_opt_def get_prop_def)

lemma get_prop_opt_update:
  "get_prop_opt (Obj (AList.update k v al)) k' = (if k' = k then v else get_prop_opt (Obj al) k')"
  by (simp add: get_prop_opt_Obj update_conv')

lemma enrich_world:
  "snd (enrich i it w) =
     w\<lparr>trace := trace w @ [KvGet Counts (''likes:'' @ i), KvGet Counts (''downloads:'' @ i),
                            KvGet Counts (''rating:'' @ i), KvGet Counts (''rating_count:'' @ i)]\<rparr>"
  by (simp add: enrich_def kv_get_def Let_def)

lemma enrich_counts_only:
  "counts w' = counts w \<Longrightarrow> fst (enrich i it w') = fst (enrich i it w)"
  by (simp add: enrich_def kv_get_def Let_def cong: sum.case_cong if_cong)

lemma overlay_number:
  assumes "\<not> isl (js_Number s)" and "f \<noteq> ''rating''"
  shows "\<exists>n. js_Number (or_else (or_else (kv_value m k) s) (Num (Fin 0))) = Inr n
           \<and> merged_counter f (m k) s = Num n"
proof -
  from assms(1) obtain x where x: "js_Number s = Inr x" by (cases "js_Number s") simp_all
  show ?thesis
  proof (cases "m k \<noteq> None \<and> m k \<noteq> Some []")
    case True
    then obtain v where "m k = Some v" "v \<noteq> []" by auto
    then show ?thesis by (simp add: merged_counter_def kv_value_def or_else_def)
  next
    case False
    then have nt: "\<not> truthy (kv_value m k)" by (auto simp: kv_value_def split: option.splits)
    show ?thesis
    proof (cases "truthy s")
      case True
      with False nt assms(2) x show ?thesis
        by (auto simp: merged_counter_def or_else_def number_of_def)
    next
      case nts: False
      with False nt show ?thesis
        by (auto simp: merged_counter_def or_else_def)
    qed
  qed
qed

lemma overlay_rating:
  "(if truthy (kv_value m k)
    then (case js_Number (kv_value m k) of Inl ex \<Rightarrow> Inl ex | Inr r \<Rightarrow> Inr (Num r))
    else Inr (or_else s (Num (Fin 0)))) = Inr (merged_counter ''rating'' (m k) s)"
  by (auto simp: merged_counter_def kv_value_def or_else_def split: option.splits)

lemma enrich_convertible:
  assumes "\<not> isl (js_Number (get_prop_opt (Obj kvs) ''likes''))"
    and "\<not> isl (js_Number (get_prop_opt (Obj kvs) ''downloads''))"
    and "\<not> isl (js_Number (get_prop_opt (Obj kvs) ''totalRatings''))"
  shows "fst (enrich i (Obj kvs) w) =
     Inr (Obj (AList.update ''totalRatings''
            (merged_counter ''totalRatings'' (counts w (''rating_count:'' @ i))
               (get_prop_opt (Obj kvs) ''totalRatings''))
         (AList.update ''rating''
            (merged_counter ''rating'' (counts w (''rating:'' @ i)) (get_prop_opt (Obj kvs) ''rating''))
         (AList.update ''downloads''
            (merged_counter ''downloads'' (counts w (''downloads:'' @ i))
               (get_prop_opt (Obj kvs) ''downloads''))
         (AList.update ''likes''
            (merged_counter ''likes'' (counts w (''likes:'' @ i)) (get_prop_opt (Obj kvs) ''likes''))
            kvs)))))"
proof -
  from overlay_number [OF assms(1), of "''likes''" "counts w" "''likes:'' @ i"]
  obtain l where l:
    "js_Number (or_else (or_else (kv_value (counts w) (''likes:'' @ i))
                           (get_prop_opt (Obj kvs) ''likes'')) (Num (Fin 0))) = Inr l"
    "merged_counter ''likes'' (counts w (''likes:'' @ i)) (get_prop_opt (Obj kvs) ''likes'') = Num l"
    by auto
  from overlay_number [OF assms(2), of "''downloads''" "counts w" "''downloads:'' @ i"]
  obtain d where d:
    "js_Number (or_else (or_else (kv_value (counts w) (''downloads:'' @ i))
                           (get_prop_opt (Obj kvs) ''downloads'')) (Num (Fin 0))) = Inr d"
    "merged_counter ''downloads'' (counts w (''downloads:'' @ i))
       (get_prop_opt (Obj kvs) ''downloads'') = Num d"
    by auto
  from overlay_number [OF assms(3), of "''totalRatings''" "counts w" "''rating_count:'' @ i"]
  obtain t where t:
    "js_Number (or_else (or_else (kv_value (counts w) (''rating_count:'' @ i))
                           (get_prop_opt (Obj kvs) ''totalRatings'')) (Num (Fin 0))) = Inr t"
    "merged_counter ''totalRatings'' (counts w (''rating_count:'' @ i))
       (get_prop_opt (Obj kvs) ''totalRatings'') = Num t"
    by auto
  note r = overlay_rating [of "counts w" "''rating:'' @ i" "get_prop_opt (Obj kvs) ''rating''"]
  note facts = l(1) [unfolded append.simps] d(1) [unfolded append.simps]
    t(1) [unfolded append.simps] r [unfolded append.simps]
  show ?thesis
    unfolding l(2) d(2) t(2)
    by (simp add: enrich_def kv_get_def Let_def spread_def facts
          split del: if_split cong: sum.case_cong if_cong)
qed

lemma convertible_object:
  assumes "convertible it"
  obtains kvs where "it = Obj kvs"
    and "\<not> isl (item_key it)"
    and "\<not> isl (js_Number (get_prop_opt it ''likes''))"
    and "\<not> isl (js_Number (get_prop_opt it ''downloads''))"
    and "\<not> isl (js_Number (get_prop_opt it ''totalRatings''))"
  using assms by (cases it) (simp_all add: convertible_def)

lemma counter_field_cases:
  assumes "(f, p) \<in> set counter_fields"
  shows "(f = ''likes'' \<and> p = ''likes:'') \<or> (f = ''downloads'' \<and> p = ''downloads:'')
    \<or> (f = ''rating'' \<and> p = ''rating:'') \<or> (f = ''totalRatings'' \<and> p = ''rating_count:'')"
  using assms by (simp add: counter_fields_def)

lemma merged_fields:
  assumes conv: "convertible it" and key: "item_key it = Inr i" "i \<noteq> []"
    and fp: "(f, p) \<in> set counter_fields"
  shows "get_prop_opt (merged_item w it) f = merged_counter f (counts w (p @ i)) (get_prop_opt it f)"
proof -
  from conv obtain kvs where it: "it = Obj kvs"
    and c: "\<not> isl (js_Number (get_prop_opt (Obj kvs) ''likes''))"
           "\<not> isl (js_Number (get_prop_opt (Obj kvs) ''downloads''))"
           "\<not> isl (js_Number (get_prop_opt (Obj kvs) ''totalRatings''))"
    by (auto elim: convertible_object)
  from key have key': "item_key (Obj kvs) = Inr i" by (simp only: it)
  have m: "merged_item w (Obj kvs) =
     Obj (AList.update ''totalRatings''
            (merged_counter ''totalRatings'' (counts w (''rating_count:'' @ i))
               (get_prop_opt (Obj kvs) ''totalRatings''))
         (AList.update ''rating''
            (merged_counter ''rating'' (counts w (''rating:'' @ i)) (get_prop_opt (Obj kvs) ''rating''))
         (AList.update ''downloads''
            (merged_counter ''downloads'' (counts w (''downloads:'' @ i))
               (get_prop_opt (Obj kvs) ''downloads''))
         (AList.update ''likes''
            (merged_counter ''likes'' (counts w (''likes:'' @ i)) (get_prop_opt (Obj kvs) ''likes''))
            kvs))))"
    using key(2) by (simp add: merged_item_def key' enrich_convertible [OF c])
  from counter_field_cases [OF fp] show ?thesis
    unfolding it
  proof (elim disjE conjE)
    assume "f = ''likes''" "p = ''likes:''"
    then show "get_prop_opt (merged_item w (Obj kvs)) f
                 = merged_counter f (counts w (p @ i)) (get_prop_opt (Obj kvs) f)"
      by (simp only: m get_prop_opt_update) simp
  next
    assume "f = ''downloads''" "p = ''downloads:''"
    then show "get_prop_opt (merged_item w (Obj kvs)) f
                 = merged_counter f (counts w (p @ i)) (get_prop_opt (Obj kvs) f)"
      by (simp only: m get_prop_opt_update) simp
  next
    assume "f = ''rating''" "p = ''rating:''"
    then show "get_prop_opt (merged_item w (Obj kvs)) f
                 = merged_counter f (counts w (p @ i)) (get_prop_opt (Obj kvs) f)"
      by (simp only: m get_prop_opt_update) simp
  next
    assume "f = ''totalRatings''" "p = ''rating_count:''"
    then show "get_prop_opt (merged_item w (Obj kvs)) f
                 = merged_counter f (counts w (p @ i)) (get_prop_opt (Obj kvs) f)"
      by (simp only: m get_prop_opt_update) simp
  qed
qed

lemma merged_other_fields:
  assumes conv: "convertible it" and key: "item_key it = Inr i" "i \<noteq> []"
    and k: "k \<notin> fst ` set counter_fields"
  shows "get_prop_opt (merged_item w it) k = get_prop_opt it k"
proof -
  from conv obtain kvs where it: "it = Obj kvs"
    and c: "\<not> isl (js_Number (get_prop_opt (Obj kvs) ''likes''))"
           "\<not> isl (js_Number (get_prop_opt (Obj kvs) ''downloads''))"
           "\<not> isl (js_Number (get_prop_opt (Obj kvs) ''totalRatings''))"
    by (auto elim: convertible_object)
  from k have ne: "k \<noteq> ''likes''" "k \<noteq> ''downloads''" "k \<noteq> ''rating''" "k \<noteq> ''totalRatings''"
    by (auto simp: counter_fields_def)
  from key have key': "item_key (Obj kvs) = Inr i" by (simp only: it)
  have "merged_item w (Obj kvs) = (case fst (enrich i (Obj kvs) w) of Inr x \<Rightarrow> x | Inl _ \<Rightarrow> Obj kvs)"
    using key(2) by (simp add: merged_item_def key')
  then show ?thesis
    unfolding it
    using ne by (simp only: enrich_convertible [OF c] sum.case get_prop_opt_update if_False)
qed

text \<open>
  Where the snapshot's field is absent or a number, as the \<open>Item\<close> type declares it, the
  handlers' precedence is the specification's.
\<close>

lemma merged_counter_typed:
  assumes "number_or_absent s"
  shows "merged_counter f live s = spec_counter_field live s"
proof -
  from assms consider "s = Undefined" | q where "s = Num (Fin q)"
    by (auto simp: number_or_absent_def split: jsval.splits jsnum.splits)
  then show ?thesis
  proof cases
    case 1
    then show ?thesis
      by (auto simp: merged_counter_def spec_counter_field_def split: option.splits)
  next
    case (2 q)
    then show ?thesis
      by (auto simp: merged_counter_def spec_counter_field_def number_of_def split: option.splits)
  qed
qed

lemma merged_item_counts_only:
  assumes "counts w' = counts w"
  shows "merged_item w' it = merged_item w it"
  by (simp only: merged_item_def enrich_counts_only [OF assms])

lemma merged_item_plain: "item_key it = Inr [] \<Longrightarrow> merged_item w it = it"
  by (simp add: merged_item_def)

text \<open>What \<open>items.map\<close> starts for an item that can be merged.\<close>

lemma merge_items_convertible:
  assumes "\<forall>it \<in> set items. convertible it"
  shows "fst (merge_items items w)
           = map (\<lambda>it. if item_key it = Inr [] then Returned it
                        else Awaited (Inr (merged_item w it))) items
       \<and> counts (snd (merge_items items w)) = counts w
       \<and> ratelimit (snd (merge_items items w)) = ratelimit w
       \<and> (\<exists>reads. trace (snd (merge_items items w)) = trace w @ reads \<and> list_all is_read reads)"
  using assms
proof (induction items arbitrary: w)
  case Nil
  then show ?case by simp
next
  case (Cons it items)
  from Cons.prems have conv: "convertible it" and rest: "\<forall>it \<in> set items. convertible it"
    by simp_all
  from conv obtain kvs where it: "it = Obj kvs"
    and nk: "\<not> isl (item_key it)"
    and c: "\<not> isl (js_Number (get_prop_opt (Obj kvs) ''likes''))"
           "\<not> isl (js_Number (get_prop_opt (Obj kvs) ''downloads''))"
           "\<not> isl (js_Number (get_prop_opt (Obj kvs) ''totalRatings''))"
    by (auto elim: convertible_object)
  from nk obtain i where key: "item_key it = Inr i" by (cases "item_key it") simp_all
  show ?case
  proof (cases "i = []")
    case True
    have step: "merge_items (it # items) w
                  = (Returned it # fst (merge_items items w), snd (merge_items items w))"
      by (simp add: key True split_beta)
    from Cons.IH [OF rest, of w] show ?thesis
      unfolding step by (simp add: key True)
  next
    case False
    define w1 where "w1 = snd (enrich i it w)"
    have tw1: "trace w1 = trace w @
                [KvGet Counts (''likes:'' @ i), KvGet Counts (''downloads:'' @ i),
                 KvGet Counts (''rating:'' @ i), KvGet Counts (''rating_count:'' @ i)]"
      and c1: "counts w1 = counts w" and r1: "ratelimit w1 = ratelimit w"
      by (simp_all add: w1_def enrich_world)
    from Cons.IH [OF rest, of w1] obtain reads where
      ih: "fst (merge_items items w1)
             = map (\<lambda>it. if item_key it = Inr [] then Returned it
                          else Awaited (Inr (merged_item w1 it))) items"
          "counts (snd (merge_items items w1)) = counts w1"
          "ratelimit (snd (merge_items items w1)) = ratelimit w1"
          "trace (snd (merge_items items w1)) = trace w1 @ reads" "list_all is_read reads"
      by blast
    have m: "(\<lambda>it. if item_key it = Inr [] then Returned it else Awaited (Inr (merged_item w1 it)))
             = (\<lambda>it. if item_key it = Inr [] then Returned it else Awaited (Inr (merged_item w it)))"
      by (simp only: merged_item_counts_only [OF c1])
    from key have key': "item_key (Obj kvs) = Inr i" by (simp only: it)
    have en: "fst (enrich i it w) = Inr (merged_item w it)"
      unfolding it using False by (simp add: merged_item_def key' enrich_convertible [OF c])
    have step: "merge_items (it # items) w =
                  (Awaited (Inr (merged_item w it)) # fst (merge_items items w1),
                   snd (merge_items items w1))"
      using False by (simp add: key split_beta w1_def en)
    have tr: "trace (snd (merge_items items w1)) = trace w @
                ([KvGet Counts (''likes:'' @ i), KvGet Counts (''downloads:'' @ i),
                  KvGet Counts (''rating:'' @ i), KvGet Counts (''rating_count:'' @ i)]
                 @ reads)"
      by (simp only: ih(4) tw1 append_assoc)
    have rd: "list_all is_read
                ([KvGet Counts (''likes:'' @ i), KvGet Counts (''downloads:'' @ i),
                  KvGet Counts (''rating:'' @ i), KvGet Counts (''rating_count:'' @ i)]
                 @ reads)"
      using ih(5) by (simp add: is_read_def)
    have A: "fst (merge_items (it # items) w)
               = map (\<lambda>it. if item_key it = Inr [] then Returned it
                            else Awaited (Inr (merged_item w it))) (it # items)"
      unfolding step fst_conv ih(1) m using False by (simp add: key)
    have B: "counts (snd (merge_items (it # items) w)) = counts w"
      unfolding step snd_conv by (simp only: ih(2) c1)
    have C: "ratelimit (snd (merge_items (it # items) w)) = ratelimit w"
      unfolding step snd_conv by (simp only: ih(3) r1)
    have D: "\<exists>reads. trace (snd (merge_items (it # items) w)) = trace w @ reads
                     \<and> list_all is_read reads"
      unfolding step snd_conv using tr rd by blast
    from A B C D show ?thesis by blast
  qed
qed

lemma promise_all_settled:
  "promise_all (map (\<lambda>it. if item_key it = Inr [] then Returned it
                            else Awaited (Inr (merged_item w it))) items)
     = Inr (map (merged_item w) items)"
proof -
  let ?s = "\<lambda>it. if item_key it = Inr [] then Returned it else Awaited (Inr (merged_item w it))"
  have a: "List.map_filter thrown (map ?s items) = []"
    by (induction items) (simp_all add: List.map_filter_simps)
  have b: "List.map_filter failed (map ?s items) = []"
    by (induction items) (simp_all add: List.map_filter_simps)
  have c: "List.map_filter fulfilled (map ?s items) = map (merged_item w) items"
    by (induction items) (simp_all add: List.map_filter_simps merged_item_plain)
  show ?thesis by (simp add: promise_all_def a b c)
qed

lemma handleContent_convertible:
  assumes cat: "catalog_items (remote e (trace w) Catalog) = Some items"
    and conv: "\<forall>it \<in> set items. convertible it"
  shows "fst (handleContent e w) = Inr (ok (Obj [(''items'', Arr (map (merged_item w) items))]))
       \<and> counts (snd (handleContent e w)) = counts w
       \<and> ratelimit (snd (handleContent e w)) = ratelimit w
       \<and> (\<exists>reads. trace (snd (handleContent e w)) = trace w @ reads \<and> list_all is_read reads)"
proof -
  define w1 where "w1 = w\<lparr>trace := trace w @ [Fetch Catalog]\<rparr>"
  have c1: "counts w1 = counts w" and r1: "ratelimit w1 = ratelimit w"
    and t1: "trace w1 = trace w @ [Fetch Catalog]"
    by (simp_all add: w1_def)
  from cat obtain st body where rep: "remote e (trace w) Catalog = Reply st body"
    by (cases "remote e (trace w) Catalog") (simp_all add: catalog_items_def)
  from merge_items_convertible [OF conv, of w1] obtain reads where
    mi: "fst (merge_items items w1)
           = map (\<lambda>it. if item_key it = Inr [] then Returned it
                        else Awaited (Inr (merged_item w1 it))) items"
        "counts (snd (merge_items items w1)) = counts w1"
        "ratelimit (snd (merge_items items w1)) = ratelimit w1"
        "trace (snd (merge_items items w1)) = trace w1 @ reads" "list_all is_read reads"
    by blast
  have pa: "promise_all (fst (merge_items items w1)) = Inr (map (merged_item w) items)"
    by (simp only: mi(1) promise_all_settled merged_item_counts_only [OF c1])
  have hc: "handleContent e w =
              (Inr (ok (Obj [(''items'', Arr (map (merged_item w) items))])), snd (merge_items items w1))"
    using cat pa
    by (simp add: handleContent_def do_fetch_def rep w1_def [symmetric] split_beta)
  have tr: "trace (snd (merge_items items w1)) = trace w @ (Fetch Catalog # reads)"
    by (simp only: mi(4) t1 append_assoc append_Cons append_Nil)
  have rd: "list_all is_read (Fetch Catalog # reads)"
    using mi(5) by (simp add: is_read_def)
  have D: "\<exists>reads. trace (snd (handleContent e w)) = trace w @ reads \<and> list_all is_read reads"
    unfolding hc snd_conv using tr rd by blast
  have A: "fst (handleContent e w) = Inr (ok (Obj [(''items'', Arr (map (merged_item w) items))]))"
    by (simp only: hc fst_conv)
  have B: "counts (snd (handleContent e w)) = counts w"
    by (simp only: hc snd_conv mi(2) c1)
  have C: "ratelimit (snd (handleContent e w)) = ratelimit w"
    by (simp only: hc snd_conv mi(3) r1)
  from A B C D show ?thesis by blast
qed

text \<open>
  C3, as stated, fails, for an item without identifier and for a snapshot field that is
  not a number. The first item below has the field \<open>likes\<close> with the string \<open>7\<close> and no
  live counter: the enriched field is the number 7, where the claim asks for the
  snapshot's field. The second item has no identifier and is passed through as it is: a
  counter field the snapshot lacks stays absent, where the claim asks for 0.
\<close>

theorem collection_passes_unidentified_item:
  "fst (handleContent (catalog_env [Obj [(''id'', Num (Fin 1)), (''likes'', Str ''7'')],
                                    Obj [(''title'', Str ''Nameless'')]]) empty_world)
     = Inr (Json 200 (Obj [(''items'', Arr
         [Obj [(''id'', Num (Fin 1)), (''likes'', Num (Fin 7)), (''downloads'', Num (Fin 0)),
               (''rating'', Num (Fin 0)), (''totalRatings'', Num (Fin 0))],
          Obj [(''title'', Str ''Nameless'')]])]))
   \<and> spec_counter_field (counts empty_world ''likes:1'')
         (get_prop_opt (Obj [(''id'', Num (Fin 1)), (''likes'', Str ''7'')]) ''likes'')
       = Str ''7''
   \<and> item_key (Obj [(''title'', Str ''Nameless'')]) = Inr []
   \<and> spec_counter_field (counts empty_world ''likes:'')
         (get_prop_opt (Obj [(''title'', Str ''Nameless'')]) ''likes'')
       = Num (Fin 0)"
  by code_simp

text \<open>
  C3, amended. Take a served catalog whose items are objects with an identifier that
  \<open>String\<close> can print and with likes, downloads and rating count that \<open>Number\<close> can read.
  The collection view answers with one merged item per catalog item, in order. For an
  item with an identifier (\<open>id\<close>, else the legacy \<open>number\<close>, printed as a non-empty
  string), each of the four counter fields is the live counter cast to a number if its
  key holds a non-empty value; else it is 0 if the snapshot's field is missing or falsy;
  else it is the snapshot's field, cast to a number for likes, downloads and the rating
  count, as it is for the rating. Where the snapshot's field is absent or a number, that
  is the snapshot's field if present, else 0. Every other field is the snapshot's. An
  item without identifier is passed through unchanged. Neither store is changed and
  everything the handler does is a read.
\<close>

theorem collection_overlays_live_counters:
  assumes cat: "catalog_items (remote e (trace w) Catalog) = Some items"
    and conv: "\<forall>it \<in> set items. convertible it"
  shows "fst (handleContent e w) = Inr (ok (Obj [(''items'', Arr (map (merged_item w) items))]))
       \<and> (\<forall>it \<in> set items. \<forall>i. item_key it = Inr i \<longrightarrow>
             (i = [] \<longrightarrow> merged_item w it = it)
             \<and> (i \<noteq> [] \<longrightarrow>
                  (\<forall>(f, p) \<in> set counter_fields.
                      get_prop_opt (merged_item w it) f
                        = merged_counter f (counts w (p @ i)) (get_prop_opt it f)
                      \<and> (number_or_absent (get_prop_opt it f) \<longrightarrow>
                           get_prop_opt (merged_item w it) f
                             = spec_counter_field (counts w (p @ i)) (get_prop_opt it f)))
                  \<and> (\<forall>k. k \<notin> fst ` set counter_fields \<longrightarrow>
                         get_prop_opt (merged_item w it) k = get_prop_opt it k)))
       \<and> counts (snd (handleContent e w)) = counts w
       \<and> ratelimit (snd (handleContent e w)) = ratelimit w
       \<and> (\<exists>reads. trace (snd (handleContent e w)) = trace w @ reads \<and> list_all is_read reads)"
proof -
  note hc = handleContent_convertible [OF cat conv]
  have fields: "\<forall>it \<in> set items. \<forall>i. item_key it = Inr i \<longrightarrow>
             (i = [] \<longrightarrow> merged_item w it = it)
             \<and> (i \<noteq> [] \<longrightarrow>
                  (\<forall>(f, p) \<in> set counter_fields.
                      get_prop_opt (merged_item w it) f
                        = merged_counter f (counts w (p @ i)) (get_prop_opt it f)
                      \<and> (number_or_absent (get_prop_opt it f) \<longrightarrow>
                           get_prop_opt (merged_item w it) f
                             = spec_counter_field (counts w (p @ i)) (get_prop_opt it f)))
                  \<and> (\<forall>k. k \<notin> fst ` set counter_fields \<longrightarrow>
                         get_prop_opt (merged_item w it) k = get_prop_opt it k))"
  proof (intro ballI allI impI)
    fix it i assume it: "it \<in> set items" and key: "item_key it = Inr i"
    from it conv have c: "convertible it" by blast
    have plain: "i = [] \<longrightarrow> merged_item w it = it"
      using key by (simp add: merged_item_def)
    have live: "i \<noteq> [] \<longrightarrow> (\<forall>(f, p) \<in> set counter_fields.
            get_prop_opt (merged_item w it) f
              = merged_counter f (counts w (p @ i)) (get_prop_opt it f)
            \<and> (number_or_absent (get_prop_opt it f) \<longrightarrow>
                 get_prop_opt (merged_item w it) f
                   = spec_counter_field (counts w (p @ i)) (get_prop_opt it f)))"
      using merged_fields [OF c key] merged_counter_typed by auto
    have other: "i \<noteq> [] \<longrightarrow> (\<forall>k. k \<notin> fst ` set counter_fields \<longrightarrow>
            get_prop_opt (merged_item w it) k = get_prop_opt it k)"
      using merged_other_fields [OF c key] by blast
    from plain live other
    show "(i = [] \<longrightarrow> merged_item w it = it)
             \<and> (i \<noteq> [] \<longrightarrow>
                  (\<forall>(f, p) \<in> set counter_fields.
                      get_prop_opt (merged_item w it) f
                        = merged_counter f (counts w (p @ i)) (get_prop_opt it f)
                      \<and> (number_or_absent (get_prop_opt it f) \<longrightarrow>
                           get_prop_opt (merged_item w it) f
                             = spec_counter_field (counts w (p @ i)) (get_prop_opt it f)))
                  \<and> (\<forall>k. k \<notin> fst ` set counter_fields \<longrightarrow>
                         get_prop_opt (merged_item w it) k = get_prop_opt it k))"
      by blast
  qed
  from hc fields show ?thesis by blast
qed

theorem collection_overlays_live_counters_witness:
  "catalog_items (remote (catalog_env sample_catalog) (trace counted_world) Catalog) = Some sample_catalog
   \<and> list_all convertible sample_catalog
   \<and> fst (handleContent (catalog_env sample_catalog) counted_world)
       = Inr (ok (Obj [(''items'', Arr
           [Obj [(''id'', Num (Fin 1)), (''title'', Str ''First''), (''likes'', Num (Fin 10)),
                 (''downloads'', Num (Fin 0)), (''rating'', Num (Fin 0)),
                 (''totalRatings'', Num (Fin 0))],
            Obj [(''number'', Num (Fin 7)), (''title'', Str ''Legacy''), (''rating'', Num (Fin 4)),
                 (''downloads'', Num (Fin 12)), (''likes'', Num (Fin 0)),
                 (''totalRatings'', Num (Fin 2))],
            Obj [(''title'', Str ''Nameless'')]])]))
   \<and> counts (snd (handleContent (catalog_env sample_catalog) counted_world)) = counts counted_world"
proof -
  have h1: "catalog_items (remote (catalog_env sample_catalog) (trace counted_world) Catalog)
              = Some sample_catalog"
    by (simp add: catalog_env_def sample_env_def catalog_items_def get_prop_opt_def get_prop_def)
  have h3: "list_all convertible sample_catalog"
    by code_simp
  then have h2: "\<forall>it \<in> set sample_catalog. convertible it"
    by (simp only: list_all_iff)
  have v: "map (merged_item counted_world) sample_catalog =
           [Obj [(''id'', Num (Fin 1)), (''title'', Str ''First''), (''likes'', Num (Fin 10)),
                 (''downloads'', Num (Fin 0)), (''rating'', Num (Fin 0)),
                 (''totalRatings'', Num (Fin 0))],
            Obj [(''number'', Num (Fin 7)), (''title'', Str ''Legacy''), (''rating'', Num (Fin 4)),
                 (''downloads'', Num (Fin 12)), (''likes'', Num (Fin 0)),
                 (''totalRatings'', Num (Fin 2))],
            Obj [(''title'', Str ''Nameless'')]]"
    by code_simp
  from collection_overlays_live_counters [OF h1 h2] h1 h3 show ?thesis
    by (simp only: v)
qed

subsection \<open>The single-item view\<close>

lemma find_item_spec:
  assumes "i \<noteq> ''undefined''"
    and "\<forall>it \<in> set items. \<exists>kvs. it = Obj kvs \<and> \<not> isl (js_String (get_prop_opt it ''id''))
                                    \<and> \<not> isl (js_String (get_prop_opt it ''number''))"
  shows "find_item i items = Inr (List.find (spec_matches i) items)"
  using assms(2)
proof (induction items)
  case Nil
  then show ?case by simp
next
  case (Cons it items)
  then obtain kvs where it: "it = Obj kvs"
    and p: "\<not> isl (js_String (get_prop_opt (Obj kvs) ''id''))"
           "\<not> isl (js_String (get_prop_opt (Obj kvs) ''number''))"
    by auto
  from p obtain s n where
    s: "js_String (get_prop_opt (Obj kvs) ''id'') = Inr s"
    and n: "js_String (get_prop_opt (Obj kvs) ''number'') = Inr n"
    by (cases "js_String (get_prop_opt (Obj kvs) ''id'')";
        cases "js_String (get_prop_opt (Obj kvs) ''number'')") simp_all
  have g: "get_prop (Obj kvs) ''id'' = Inr (get_prop_opt (Obj kvs) ''id'')"
    by (simp add: get_prop_opt_def get_prop_def)
  have u: "\<And>v. v = Undefined \<Longrightarrow> js_String v \<noteq> Inr i" using assms(1) by auto
  have m: "(s = i \<or> n = i) = spec_matches i (Obj kvs)"
    using u s n by (auto simp: spec_matches_def)
  from Cons show ?case
    using m by (auto simp: it g s n)
qed

text \<open>
  For every requested id but the string \<open>undefined\<close>, and a catalog of objects whose
  \<open>id\<close> and \<open>number\<close> can be printed, the single-item view answers with the first
  matching item, merged with the live counters kept under the requested id, or with 404
  when no item matches.
\<close>

lemma content_by_id_spec:
  assumes cat: "catalog_items (remote e (trace w) Catalog) = Some items"
    and objs: "\<forall>it \<in> set items. \<exists>kvs. it = Obj kvs \<and> \<not> isl (js_String (get_prop_opt it ''id''))
                                          \<and> \<not> isl (js_String (get_prop_opt it ''number''))"
    and i: "i \<noteq> ''undefined''"
  shows "fst (handleContentById e i w) =
           (case List.find (spec_matches i) items of
              None \<Rightarrow> Inr (err 404 ''Item not found'')
            | Some it \<Rightarrow> (case fst (enrich i it w) of Inl ex \<Rightarrow> Inl ex | Inr x \<Rightarrow> Inr (ok x)))"
proof -
  define w1 where "w1 = w\<lparr>trace := trace w @ [Fetch Catalog]\<rparr>"
  have c1: "counts w1 = counts w" by (simp add: w1_def)
  from cat obtain st body where rep: "remote e (trace w) Catalog = Reply st body"
    by (cases "remote e (trace w) Catalog") (simp_all add: catalog_items_def)
  note f = find_item_spec [OF i objs]
  show ?thesis
  proof (cases "List.find (spec_matches i) items")
    case None
    with cat show ?thesis
      by (simp add: handleContentById_def do_fetch_def rep f)
  next
    case (Some it)
    then have "it \<in> set items" by (auto simp: find_Some_iff)
    with objs obtain kvs where "it = Obj kvs" by blast
    then have t: "truthy it" by simp
    from cat Some t show ?thesis
      by (simp add: handleContentById_def do_fetch_def rep f split_beta w1_def [symmetric]
            enrich_counts_only [OF c1] split: sum.splits)
  qed
qed

text \<open>
  C8 at its failing input. No item of the sample catalog has an \<open>id\<close> or a \<open>number\<close>
  that prints as \<open>undefined\<close>, yet \<open>GET /content/undefined\<close> answers 200 with the first
  item: that item has no \<open>number\<close> field, and \<open>String(it.number)\<close> of a missing field is
  the string \<open>undefined\<close>. The views for \<open>7\<close> (present only as legacy number) and \<open>42\<close>
  (absent) are as the claim says.
\<close>

theorem content_by_id_matches_missing_field:
  "\<not> list_ex (spec_matches ''undefined'') sample_catalog
   \<and> fst (handleContentById (catalog_env sample_catalog) ''undefined'' counted_world)
       = Inr (ok (Obj [(''id'', Num (Fin 1)), (''title'', Str ''First''), (''likes'', Num (Fin 3)),
                       (''downloads'', Num (Fin 0)), (''rating'', Num (Fin 0)),
                       (''totalRatings'', Num (Fin 0))]))
   \<and> fst (handleContentById (catalog_env sample_catalog) ''7'' counted_world)
       = Inr (ok (Obj [(''number'', Num (Fin 7)), (''title'', Str ''Legacy''),
                       (''rating'', Num (Fin 4)), (''downloads'', Num (Fin 12)),
                       (''likes'', Num (Fin 0)), (''totalRatings'', Num (Fin 2))]))
   \<and> fst (handleContentById (catalog_env sample_catalog) ''42'' counted_world)
       = Inr (err 404 ''Item not found'')"
  by code_simp

subsection \<open>Counters never decrease\<close>

lemma counters_ok_read:
  assumes "counters_ok w" and "is_counter_key k"
  shows "\<exists>n. n \<le> 2 ^ 53 \<and> counter_is w k n \<and> live_count w k = Fin (of_nat n)"
proof (cases "counts w k")
  case None
  then have c: "counter_is w k 0" by (simp add: counter_is_def)
  from live_count_counter [OF c] c show ?thesis by auto
next
  case (Some v)
  with assms obtain n where n: "n \<le> 2 ^ 53" "v = digits n"
    by (auto simp: counters_ok_def)
  with Some have c: "counter_is w k n" by (simp add: counter_is_def)
  from live_count_counter [OF c n(1)] c n(1) show ?thesis by blast
qed

lemma bump_value:
  assumes "n \<le> 2 ^ 53"
  shows "\<exists>m. n \<le> m \<and> m \<le> 2 ^ 53 \<and> num_to_string (jadd (Fin (of_nat n)) (Fin 1)) = digits m"
proof (cases "n < 2 ^ 53")
  case True
  from add_one_exact [OF True] have "num_to_string (jadd (Fin (of_nat n)) (Fin 1)) = digits (Suc n)"
    by (simp only:)
  moreover from True have "Suc n \<le> 2 ^ 53" by simp
  ultimately show ?thesis by (intro exI [of _ "Suc n"]) simp
next
  case False
  with assms have n: "n = 2 ^ 53" by simp
  have "jadd (Fin (of_nat n)) (Fin 1) = Fin (of_nat n)"
    using fround_saturates by (simp add: n)
  then have "num_to_string (jadd (Fin (of_nat n)) (Fin 1)) = digits n"
    using num_to_string_of_nat [OF assms] by (simp only:)
  with assms show ?thesis by (intro exI [of _ n]) simp
qed

lemma counter_step:
  assumes ok: "counters_ok w" and k: "is_counter_key k" and x: "\<not> is_counter_key x"
    and upd: "counts w' = (counts w)(k \<mapsto> bump w k) \<or> counts w' = (counts w)(x \<mapsto> v, k \<mapsto> bump w k)"
  shows "never_decreased w w' \<and> counters_ok w'"
proof -
  from counters_ok_read [OF ok k] obtain n where
    n: "n \<le> 2 ^ 53" "live_count w k = Fin (of_nat n)" by blast
  from bump_value [OF n(1)] obtain m where
    m: "n \<le> m" "m \<le> 2 ^ 53" "bump w k = digits m" by (auto simp: bump_def n(2))
  from k x have xk: "x \<noteq> k" by auto
  from upd m(3) have at_k: "counts w' k = Some (digits m)" by auto
  have others: "\<And>j. j \<noteq> k \<Longrightarrow> is_counter_key j \<Longrightarrow> counts w' j = counts w j"
    using upd x by auto
  have kept: "\<forall>j. counts w j \<noteq> None \<longrightarrow> counts w' j \<noteq> None"
    using upd by auto
  have lk: "live_count w' k = Fin (of_nat m)"
    by (rule live_count_counter [OF _ m(2)]) (simp add: counter_is_def at_k)
  have mono: "\<forall>j. is_counter_key j \<longrightarrow>
           (\<exists>a b. live_count w j = Fin (of_nat a) \<and> live_count w' j = Fin (of_nat b) \<and> a \<le> b)"
  proof (intro allI impI)
    fix j assume j: "is_counter_key j"
    show "\<exists>a b. live_count w j = Fin (of_nat a) \<and> live_count w' j = Fin (of_nat b) \<and> a \<le> b"
    proof (cases "j = k")
      case True
      with n(2) lk m(1) show ?thesis by blast
    next
      case False
      from counters_ok_read [OF ok j] obtain a where a: "live_count w j = Fin (of_nat a)" by blast
      from others [OF False j] have "live_count w' j = live_count w j"
        by (simp add: live_count_def)
      with a show ?thesis by auto
    qed
  qed
  have ok': "counters_ok w'"
    unfolding counters_ok_def
  proof (intro allI impI)
    fix j u assume ju: "is_counter_key j \<and> counts w' j = Some u"
    show "\<exists>n. n \<le> 2 ^ 53 \<and> u = digits n"
    proof (cases "j = k")
      case True
      with ju at_k m(2) show ?thesis by auto
    next
      case False
      with ju others have "counts w j = Some u" by auto
      with ok ju show ?thesis by (auto simp: counters_ok_def)
    qed
  qed
  from kept mono ok' show ?thesis by (simp add: never_decreased_def)
qed

lemma unchanged_step:
  assumes "counters_ok w" and "counts w' = counts w"
  shows "never_decreased w w' \<and> counters_ok w'"
proof -
  have "\<And>j. live_count w' j = live_count w j"
    by (simp add: live_count_def assms(2))
  moreover have "\<forall>j. is_counter_key j \<longrightarrow> (\<exists>a. live_count w j = Fin (of_nat a))"
    using counters_ok_read [OF assms(1)] by blast
  ultimately have "never_decreased w w'"
    by (auto simp: never_decreased_def assms(2))
  moreover from assms have "counters_ok w'" by (simp add: counters_ok_def)
  ultimately show ?thesis by simp
qed

lemma counts_step_never_decreased:
  assumes "counters_ok w" and "counts_step w w'"
  shows "never_decreased w w' \<and> counters_ok w'"
proof -
  from assms(2) consider "counts w' = counts w"
    | k where "is_counter_key k" "counts w' = (counts w)(k \<mapsto> bump w k)"
    | k x v where "is_counter_key k" "\<not> is_counter_key x"
        "counts w' = (counts w)(x \<mapsto> v, k \<mapsto> bump w k)"
    unfolding counts_step_def by blast
  then show ?thesis
  proof cases
    case 1
    then show ?thesis by (rule unchanged_step [OF assms(1)])
  next
    case (2 k)
    have "\<not> is_counter_key []" by (simp add: is_counter_key_def)
    from counter_step [OF assms(1) 2(1) this, of w' undefined] 2(2) show ?thesis by blast
  next
    case (3 k x v)
    from counter_step [OF assms(1) 3(1) 3(2), of w' v] 3(3) show ?thesis by blast
  qed
qed

lemma counter_keys:
  "is_counter_key (''likes:'' @ i)" "is_counter_key (''downloads:'' @ i)"
  "is_counter_key (''rating_count:'' @ i)" "\<not> is_counter_key (''rating:'' @ i)"
  by (simp_all add: is_counter_key_def)

lemma get_prop_same_body:
  "get_prop b k = Inr v \<Longrightarrow> get_prop b k' = Inr (get_prop_opt b k')"
  by (cases b) (simp_all add: get_prop_def get_prop_opt_def)

lemma counts_step_refl: "counts w' = counts w \<Longrightarrow> counts_step w w'"
  by (simp add: counts_step_def)

lemma handleLike_counts: "counts_step w (snd (handleLike req w))"
proof (cases "get_prop (request_json req) ''id''")
  case (Inl e)
  then show ?thesis by (simp add: handleLike_def counts_step_def)
next
  case (Inr v)
  then have rid: "request_id req = js_String (or_else v (Str []))"
    by (simp add: request_id_def body_field_def get_prop_opt_def)
  show ?thesis
  proof (cases "js_String (or_else v (Str []))")
    case (Inl ex)
    with Inr show ?thesis by (simp add: handleLike_def counts_step_def)
  next
    case js: (Inr i)
    with rid have i: "request_id req = Inr i" by simp
    show ?thesis
    proof (cases "i = []")
      case True
      with Inr js show ?thesis by (simp add: handleLike_def counts_step_def)
    next
      case False
      show ?thesis
      proof (cases "truthy (kv_value (ratelimit w) (''like:'' @ i @ '':'' @ ip req))")
        case True
        with False Inr js show ?thesis
          by (simp add: handleLike_def counts_step_def kv_get_def Let_def)
      next
        case nt: False
        note step = handleLike_accepted [OF i False nt]
        have "counts (snd (handleLike req w)) = (counts w)(''likes:'' @ i \<mapsto> bump w (''likes:'' @ i))"
          by (simp add: step bump_def)
        with counter_keys(1) show ?thesis unfolding counts_step_def by blast
      qed
    qed
  qed
qed

lemma handleRate_counts: "counts_step w (snd (handleRate req w))"
proof (cases "get_prop (request_json req) ''id''")
  case (Inl e)
  then show ?thesis by (simp add: handleRate_def counts_step_def)
next
  case (Inr v)
  then have rid: "request_id req = js_String (or_else v (Str []))"
    by (simp add: request_id_def body_field_def get_prop_opt_def)
  from get_prop_same_body [OF Inr]
  have rt: "get_prop (request_json req) ''rating'' = Inr (body_field req ''rating'')"
    by (simp add: body_field_def)
  show ?thesis
  proof (cases "js_String (or_else v (Str []))")
    case (Inl ex)
    with Inr show ?thesis by (simp add: handleRate_def counts_step_def)
  next
    case js: (Inr i)
    with rid have i: "request_id req = Inr i" by simp
    show ?thesis
    proof (cases "js_Number (or_else (body_field req ''rating'') (Num (Fin 0)))")
      case (Inl ex)
      with Inr rt js show ?thesis
        by (simp add: handleRate_def counts_step_def)
    next
      case jn: (Inr r)
      then have r: "request_rating req = Inr r" by (simp add: request_rating_def)
      show ?thesis
      proof (cases "i = [] \<or> jless r (Fin 1) \<or> jless (Fin 5) r")
        case True
        with Inr rt js jn show ?thesis
          by (auto simp: handleRate_def counts_step_def)
      next
        case acc: False
        show ?thesis
        proof (cases "truthy (kv_value (ratelimit w) (''rate:'' @ i @ '':'' @ ip req))")
          case True
          with acc Inr rt js jn show ?thesis
            by (simp add: handleRate_def counts_step_def kv_get_def Let_def)
        next
          case nt: False
          from acc have a: "i \<noteq> []" "\<not> jless r (Fin 1)" "\<not> jless (Fin 5) r" by simp_all
          note step = handleRate_accepted [OF i a(1) r a(2,3) nt]
          have "counts (snd (handleRate req w))
                  = (counts w)(''rating:'' @ i \<mapsto>
                                 toFixed1 (spec_new_average (stored_average w i)
                                             (stored_ratings w i) r),
                               ''rating_count:'' @ i \<mapsto>
                                 num_to_string (jadd (stored_ratings w i) (Fin 1)))"
            by (simp add: step)
          then have "counts (snd (handleRate req w))
                  = (counts w)(''rating:'' @ i \<mapsto>
                                 toFixed1 (spec_new_average (stored_average w i)
                                             (stored_ratings w i) r),
                               ''rating_count:'' @ i \<mapsto> bump w (''rating_count:'' @ i))"
            by (simp only: bump_def stored_ratings_live)
          with counter_keys(3,4) show ?thesis unfolding counts_step_def by blast
        qed
      qed
    qed
  qed
qed

lemma handleDownloadTrack_counts: "counts_step w (snd (handleDownloadTrack req w))"
proof (cases "get_prop (request_json req) ''itemId''")
  case (Inl e)
  then show ?thesis by (simp add: handleDownloadTrack_def counts_step_def)
next
  case (Inr v)
  note fn = get_prop_same_body [OF Inr, of "''fileName''"]
  show ?thesis
  proof (cases "js_String (or_else v (Str []))")
    case (Inl ex)
    with Inr show ?thesis by (simp add: handleDownloadTrack_def counts_step_def)
  next
    case i: (Inr i)
    show ?thesis
    proof (cases "js_String (or_else (get_prop_opt (request_json req) ''fileName'') (Str []))")
      case (Inl ex)
      with Inr fn i show ?thesis by (simp add: handleDownloadTrack_def counts_step_def)
    next
      case n: (Inr n)
      show ?thesis
      proof (cases "i = []")
        case True
        with Inr fn i n show ?thesis by (simp add: handleDownloadTrack_def counts_step_def)
      next
        case False
        with Inr fn i n
        have "counts (snd (handleDownloadTrack req w))
                = (counts w)(''downloads:'' @ i \<mapsto> bump w (''downloads:'' @ i))"
          by (simp add: handleDownloadTrack_def kv_get_def kv_put_def Let_def bump_def
                live_count_read)
        with counter_keys(2) show ?thesis unfolding counts_step_def by blast
      qed
    qed
  qed
qed

lemma handleDownload_counts: "counts_step w (snd (handleDownload e req w))"
proof -
  define asset where "asset = str_or (search req ''asset'') []"
  define item where "item = str_or (search req ''id'') []"
  define w1 where "w1 = w\<lparr>trace := trace w @ [Fetch (Asset asset)]\<rparr>"
  have c1: "counts w1 = counts w" by (simp add: w1_def)
  show ?thesis
  proof (cases "url_hostname e asset")
    case None
    then show ?thesis
      by (simp add: handleDownload_def counts_step_def asset_def [symmetric] Let_def)
  next
    case (Some host)
    show ?thesis
    proof (cases "host \<in> set ALLOWED_ASSET_HOSTS")
      case False
      with Some show ?thesis
        by (simp add: handleDownload_def counts_step_def asset_def [symmetric] Let_def)
    next
      case True
      show ?thesis
      proof (cases "remote e (trace w) (Asset asset)")
        case (Rejected m)
        with Some True show ?thesis
          by (simp add: handleDownload_def counts_step_def asset_def [symmetric] Let_def
                do_fetch_def)
      next
        case (Reply st body)
        show ?thesis
        proof (cases "200 \<le> st \<and> st \<le> 299 \<and> item \<noteq> []")
          case False
          with Some True Reply show ?thesis
            by (auto simp: handleDownload_def counts_step_def asset_def [symmetric]
                  item_def [symmetric] Let_def do_fetch_def)
        next
          case ok: True
          with Some True Reply
          have "counts (snd (handleDownload e req w))
                  = (counts w)(''downloads:'' @ item \<mapsto> bump w1 (''downloads:'' @ item))"
            by (simp add: handleDownload_def asset_def [symmetric] item_def [symmetric] Let_def
                  do_fetch_def kv_get_def kv_put_def bump_def live_count_read live_count_frame
                  w1_def)
          moreover have "bump w1 (''downloads:'' @ item) = bump w (''downloads:'' @ item)"
            by (simp add: bump_def live_count_def c1)
          ultimately show ?thesis
            using counter_keys(2) unfolding counts_step_def by metis
        qed
      qed
    qed
  qed
qed

text \<open>
  C9. The four operations that write to the counter store are a like, a rating, a
  proxied download and a tracked download. From a counter store as the worker leaves it,
  whatever the request and its outcome, each of them keeps every key of the store, and
  leaves every likes, downloads and rating-count counter (an absent key reading as zero)
  at a whole number no smaller than before; the store it leaves is again such a store.
  The rating average, kept under \<open>rating:<id>\<close>, is no such counter and is not bound.
\<close>

theorem counters_never_decrease:
  assumes "counters_ok w"
    and "w' = snd (handleLike req w) \<or> w' = snd (handleRate req w)
         \<or> w' = snd (handleDownload e req w) \<or> w' = snd (handleDownloadTrack req w)"
  shows "(\<forall>k. counts w k \<noteq> None \<longrightarrow> counts w' k \<noteq> None)
       \<and> (\<forall>k. is_counter_key k \<longrightarrow>
              (\<exists>m n. live_count w k = Fin (of_nat m) \<and> live_count w' k = Fin (of_nat n) \<and> m \<le> n))
       \<and> (\<forall>k. counts w k = None \<longrightarrow> live_count w k = Fin 0)
       \<and> counters_ok w'"
proof -
  from assms(2) have "counts_step w w'"
    using handleLike_counts handleRate_counts handleDownload_counts handleDownloadTrack_counts
    by blast
  from counts_step_never_decreased [OF assms(1) this]
  have "never_decreased w w'" and ok': "counters_ok w'" by simp_all
  moreover have "\<forall>k. counts w k = None \<longrightarrow> live_count w k = Fin 0"
    by (simp add: live_count_def str_or_def string_to_number_zero)
  ultimately show ?thesis by (simp add: never_decreased_def)
qed

lemma counters_ok_counted_world: "counters_ok counted_world"
proof -
  have d: "''10'' = digits 10" "''2'' = digits 2" by code_simp+
  have b: "(10::nat) \<le> 2 ^ 53" "(2::nat) \<le> 2 ^ 53" by simp_all
  show ?thesis
    unfolding counters_ok_def
  proof (intro allI impI)
    fix k v assume kv: "is_counter_key k \<and> counts counted_world k = Some v"
    then have "(k = ''likes:1'' \<and> v = ''10'') \<or> (k = ''rating:7'' \<and> v = ''4.0'')
               \<or> (k = ''rating_count:7'' \<and> v = ''2'')"
      by (simp add: counted_world_def split: if_splits)
    moreover have "\<not> is_counter_key ''rating:7''" by (simp add: is_counter_key_def)
    ultimately have "v = ''10'' \<or> v = ''2''" using kv by blast
    with d b show "\<exists>n. n \<le> 2 ^ 53 \<and> v = digits n" by metis
  qed
qed

theorem counters_never_decrease_witness:
  "counters_ok counted_world
   \<and> counts counted_world ''likes:1'' = Some ''10''
   \<and> counts (snd (handleLike (like_request ''1'' ''1.1.1.1'') counted_world)) ''likes:1'' = Some ''11''
   \<and> counters_ok (snd (handleLike (like_request ''1'' ''1.1.1.1'') counted_world))
   \<and> counts counted_world ''rating_count:7'' = Some ''2''
   \<and> counts (snd (handleRate (rate_request ''7'' ''1.1.1.1'' (Num (Fin 1))) counted_world))
         ''rating_count:7'' = Some ''3''
   \<and> counts counted_world ''rating:7'' = Some ''4.0''
   \<and> counts (snd (handleRate (rate_request ''7'' ''1.1.1.1'' (Num (Fin 1))) counted_world))
         ''rating:7'' = Some ''3.0''
   \<and> counters_ok (snd (handleRate (rate_request ''7'' ''1.1.1.1'' (Num (Fin 1))) counted_world))"
proof -
  let ?like = "like_request ''1'' ''1.1.1.1''"
  let ?rate = "rate_request ''7'' ''1.1.1.1'' (Num (Fin 1))"
  have cw: "counts counted_world ''likes:1'' = Some ''10''"
    "counts counted_world ''rating_count:7'' = Some ''2''"
    "counts counted_world ''rating:7'' = Some ''4.0''"
    "ratelimit counted_world = Map.empty"
    by (simp_all add: counted_world_def)
  have d: "digits 10 = ''10''" "digits 11 = ''11''" by code_simp+
  have l1: "request_id ?like = Inr ''1''" "''1'' \<noteq> []"
    and l2: "ratelimit counted_world (''like:'' @ ''1'' @ '':'' @ ip ?like) = None"
    and l3: "counter_is counted_world (''likes:'' @ ''1'') 10"
    by (simp_all add: like_request_reads cw counter_is_def d)
  have l4: "(10::nat) < 2 ^ 53" by simp
  note ls = like_step [OF l1 l2 l3 l4]
  have A: "counts (snd (handleLike ?like counted_world)) ''likes:1'' = Some ''11''"
    by (simp add: ls like_request_reads d)
  have rid: "request_id ?rate = Inr ''7''" "''7'' \<noteq> []"
    and rr: "request_rating ?rate = Inr (Fin 1)"
    by (simp_all add: rate_request_reads or_else_def)
  have r2: "\<not> jless (Fin 1) (Fin 1)" "\<not> jless (Fin 5) (Fin 1)"
    by simp_all
  have r3: "\<not> truthy (kv_value (ratelimit counted_world) (''rate:'' @ ''7'' @ '':'' @ ip ?rate))"
    by (simp add: kv_value_def cw)
  have s: "stored_ratings counted_world ''7'' = Fin 2" "stored_average counted_world ''7'' = Fin 4"
    by code_simp+
  have ev: "spec_new_average (Fin 4) (Fin 2) (Fin 1) = Fin 3" "toFixed1 (Fin 3) = ''3.0''"
    "jadd (Fin 2) (Fin 1) = Fin 3" "num_to_string (Fin 3) = ''3''"
    by code_simp+
  note rs = handleRate_accepted [OF rid rr r2 r3, unfolded s ev append.simps]
  have B: "counts (snd (handleRate ?rate counted_world)) ''rating_count:7'' = Some ''3''"
    "counts (snd (handleRate ?rate counted_world)) ''rating:7'' = Some ''3.0''"
    by (simp_all add: rs)
  note ok = counters_ok_counted_world
  from counters_never_decrease [OF ok, of "snd (handleLike ?like counted_world)" ?like]
  have a: "counters_ok (snd (handleLike ?like counted_world))" by blast
  from counters_never_decrease [OF ok, of "snd (handleRate ?rate counted_world)" ?rate]
  have b: "counters_ok (snd (handleRate ?rate counted_world))" by blast
  from ok cw(1-3) A B a b show ?thesis by blast
qed

subsection \<open>Submission: files larger than the maximum\<close>

lemma extends_refl: "extends_harmlessly mx w w"
  by (simp add: extends_harmlessly_def)

lemma extends_trans:
  "extends_harmlessly mx w w1 \<Longrightarrow> extends_harmlessly mx w1 w2 \<Longrightarrow> extends_harmlessly mx w w2"
  by (auto simp: extends_harmlessly_def)

lemma extends_fetch:
  "harmless mx (Fetch c) \<Longrightarrow> extends_harmlessly mx w (snd (do_fetch e c w))"
  by (simp add: extends_harmlessly_def do_fetch_def)

lemma verifyCaptcha_extends: "extends_harmlessly mx w (snd (verifyCaptcha e token w))"
proof -
  have h: "harmless mx (Fetch (CaptchaVerify token))" by (simp add: harmless_def)
  have "snd (verifyCaptcha e token w) = w
        \<or> snd (verifyCaptcha e token w) = snd (do_fetch e (CaptchaVerify token) w)"
    by (simp add: verifyCaptcha_def split_beta split: sum.splits)
  with extends_refl extends_fetch [OF h] show ?thesis by metis
qed

lemma monthlyRelease_extends: "extends_harmlessly mx w (snd (monthlyRelease e w))"
proof -
  define w1 where "w1 = snd (do_fetch e (ReleaseByTag (release_tag e)) w)"
  have h: "harmless mx (Fetch (ReleaseByTag (release_tag e)))"
          "harmless mx (Fetch (ReleaseCreate (release_tag e)))"
    by (simp_all add: harmless_def)
  have a: "extends_harmlessly mx w w1" unfolding w1_def by (rule extends_fetch [OF h(1)])
  have b: "extends_harmlessly mx w1 (snd (do_fetch e (ReleaseCreate (release_tag e)) w1))"
    by (rule extends_fetch [OF h(2)])
  have "snd (monthlyRelease e w) = w1
        \<or> snd (monthlyRelease e w) = snd (do_fetch e (ReleaseCreate (release_tag e)) w1)"
    by (simp add: monthlyRelease_def split_beta w1_def Let_def split: fetched.splits)
  with a extends_trans [OF a b] show ?thesis by metis
qed

lemma upload_files_extends:
  "extends_harmlessly mx w (snd (upload_files e mx relId fs ms w))"
proof (induction fs arbitrary: ms w)
  case Nil
  show ?case by (simp add: extends_refl)
next
  case (Cons f fs)
  show ?case
  proof (cases "jless mx (Fin (of_nat (file_size f)))")
    case True
    then show ?thesis by (simp add: extends_refl)
  next
    case False
    show ?thesis
    proof (cases "js_String relId")
      case (Inl ex)
      with False show ?thesis by (simp add: extends_refl)
    next
      case (Inr rel)
      define c where "c = AssetUpload rel (sanitize (file_name f)) (file_size f)"
      define w1 where "w1 = snd (do_fetch e c w)"
      have "harmless mx (Fetch c)" using False by (simp add: harmless_def c_def)
      then have a: "extends_harmlessly mx w w1" unfolding w1_def by (rule extends_fetch)
      have "snd (upload_files e mx relId (f # fs) ms w) = w1
            \<or> snd (upload_files e mx relId (f # fs) ms w)
                = snd (upload_files e mx relId fs (ms @ [(sanitize (file_name f), file_size f)]) w1)"
        using False Inr
        by (simp add: Let_def split_beta c_def w1_def split: fetched.splits sum.splits)
      with a extends_trans [OF a Cons.IH] show ?thesis by metis
    qed
  qed
qed

lemma upload_files_blocked:
  "\<exists>f\<in>set fs. too_large mx f \<Longrightarrow> fst (upload_files e mx relId fs ms w) \<noteq> Inr (Inr ms')"
proof (induction fs arbitrary: ms w)
  case Nil
  then show ?case by simp
next
  case (Cons f fs)
  show ?case
  proof (cases "jless mx (Fin (of_nat (file_size f)))")
    case True
    then show ?thesis by simp
  next
    case False
    with Cons.prems have "\<exists>g\<in>set fs. too_large mx g" by (auto simp: too_large_def)
    from Cons.IH [OF this] False show ?thesis
      by (simp add: Let_def split_beta split: fetched.splits sum.splits)
  qed
qed

lemma upload_files_early:
  "fst (upload_files e mx relId fs ms w) = Inr (Inl r) \<Longrightarrow> r \<noteq> ok d"
proof (induction fs arbitrary: ms w)
  case Nil
  then show ?case by simp
next
  case (Cons f fs)
  show ?case
  proof (cases "jless mx (Fin (of_nat (file_size f)))")
    case True
    with Cons.prems show ?thesis by (auto simp: err_not_ok)
  next
    case False
    with Cons.prems Cons.IH show ?thesis
      by (auto simp: Let_def split_beta err_not_ok split: fetched.splits sum.splits if_splits)
  qed
qed

lemma upload_files_first:
  assumes "pre = [] \<or> js_String relId = Inr rel"
    and "uploads_succeed e rel pre (trace w)"
    and "list_all (\<lambda>g. \<not> too_large mx g) pre" and "too_large mx f"
  shows "upload_files e mx relId (pre @ f # rest) ms w
         = (Inr (Inl (too_large_response mx f)), w\<lparr>trace := trace w @ map (upload_of rel) pre\<rparr>)"
  using assms(1-3)
proof (induction pre arbitrary: ms w)
  case Nil
  with assms(4) show ?case by (simp add: too_large_def too_large_response_def)
next
  case (Cons g pre)
  from Cons.prems(1) have rel: "js_String relId = Inr rel" by simp
  from Cons.prems(3) have small: "\<not> jless mx (Fin (of_nat (file_size g)))"
    and rest: "list_all (\<lambda>g. \<not> too_large mx g) pre"
    by (simp_all add: too_large_def)
  from Cons.prems(2) obtain st j where
    r: "remote e (trace w) (AssetUpload rel (sanitize (file_name g)) (file_size g)) = Reply st (Some j)"
    and st: "200 \<le> st" "st \<le> 299" and j: "j \<noteq> Null" "j \<noteq> Undefined"
    and next_ok: "uploads_succeed e rel pre (trace w @ [upload_of rel g])"
    by (auto split: fetched.splits option.splits)
  from j obtain x where x: "get_prop j ''browser_download_url'' = Inr x"
    by (cases j) (simp_all add: get_prop_def)
  define w1 where "w1 = w\<lparr>trace := trace w @ [upload_of rel g]\<rparr>"
  have ih: "upload_files e mx relId (pre @ f # rest) (ms @ [(sanitize (file_name g), file_size g)]) w1
            = (Inr (Inl (too_large_response mx f)), w1\<lparr>trace := trace w1 @ map (upload_of rel) pre\<rparr>)"
    by (rule Cons.IH) (simp_all add: rel w1_def next_ok rest)
  show ?case
    using small r st x
    by (simp add: rel do_fetch_def reply_json_def upload_of_def [symmetric]
          w1_def [symmetric] ih)
       (simp add: w1_def)
qed

lemma harmless_new:
  assumes "list_all (harmless mx) new"
  shows "(\<forall>c t fs. Fetch (IssueCreate c t fs) \<notin> set new)
         \<and> (\<forall>rel n sz. Fetch (AssetUpload rel n sz) \<in> set new \<longrightarrow> \<not> jless mx (Fin (of_nat sz)))"
proof -
  have "\<And>c t fs. \<not> harmless mx (Fetch (IssueCreate c t fs))" by (simp add: harmless_def)
  moreover have "\<And>rel n sz. harmless mx (Fetch (AssetUpload rel n sz)) \<Longrightarrow> \<not> jless mx (Fin (of_nat sz))"
    by (simp add: harmless_def)
  ultimately show ?thesis using assms unfolding list_all_iff by blast
qed

lemma find_first:
  "list_ex P xs \<Longrightarrow> \<exists>f rest. find P xs = Some f \<and> P f \<and> xs = takeWhile (\<lambda>g. \<not> P g) xs @ f # rest"
  by (induction xs) auto

lemma handleSubmit_oversized:
  assumes form: "form_data req = Some form"
    and big: "list_ex (too_large (max_bytes e)) (form_files form)"
  shows "extends_harmlessly (max_bytes e) w (snd (handleSubmit e req w))"
    and "fst (handleSubmit e req w) \<noteq> Inr (ok d)"
proof -
  define mx where "mx = max_bytes e"
  have e1: "extends_harmlessly mx w (snd (verifyCaptcha e tok w))" for tok
    by (rule verifyCaptcha_extends)
  have e2: "extends_harmlessly mx w (snd (monthlyRelease e (snd (verifyCaptcha e tok w))))" for tok
    by (rule extends_trans [OF e1 monthlyRelease_extends])
  have e3: "extends_harmlessly mx w
              (snd (upload_files e mx rel fs ms (snd (monthlyRelease e (snd (verifyCaptcha e tok w))))))"
    for tok rel fs ms
    by (rule extends_trans [OF e2 upload_files_extends])
  from big have ex: "\<exists>f\<in>set (form_files form). too_large mx f"
    by (simp add: list_ex_iff mx_def)
  have blocked: "(fst (upload_files e mx rel (form_files form) ms v) = Inr (Inr ms')) = False"
    for rel ms v ms'
    using upload_files_blocked [OF ex] by simp
  have early: "fst (upload_files e mx rel fs ms v) = Inr (Inl x) \<Longrightarrow> x \<noteq> ok d" for rel fs ms v x
    by (rule upload_files_early)
  show "extends_harmlessly (max_bytes e) w (snd (handleSubmit e req w))"
    unfolding mx_def [symmetric]
    by (simp add: handleSubmit_def form Let_def split_beta mx_def [symmetric] extends_refl e1 e2 e3
          blocked split: sum.splits)
  show "fst (handleSubmit e req w) \<noteq> Inr (ok d)"
    using early
    by (auto simp: handleSubmit_def form Let_def split_beta mx_def [symmetric] blocked err_not_ok
          split: sum.splits)
qed

lemma handleSubmit_first_oversized:
  assumes form: "form_data req = Some form"
    and big: "list_ex (too_large (max_bytes e)) (form_files form)"
    and pre: "is_multipart req" "required_present form"
    and cap: "verifyCaptcha e (captcha_token form) w = (Inr True, w1)"
    and rel: "monthlyRelease e w1 = (Inr relId, w2)"
    and pr: "takeWhile (\<lambda>g. \<not> too_large (max_bytes e) g) (form_files form) = []
             \<or> js_String relId = Inr rel"
    and up: "uploads_succeed e rel
               (takeWhile (\<lambda>g. \<not> too_large (max_bytes e) g) (form_files form)) (trace w2)"
  shows "\<exists>f. find (too_large (max_bytes e)) (form_files form) = Some f
           \<and> handleSubmit e req w
               = (Inr (too_large_response (max_bytes e) f),
                  w2\<lparr>trace := trace w2 @ map (upload_of rel)
                                            (takeWhile (\<lambda>g. \<not> too_large (max_bytes e) g)
                                               (form_files form))\<rparr>)"
proof -
  define mx where "mx = max_bytes e"
  define before where "before = takeWhile (\<lambda>g. \<not> too_large mx g) (form_files form)"
  from find_first [OF big] obtain f rest where
    f: "find (too_large mx) (form_files form) = Some f" "too_large mx f"
    and files: "form_files form = before @ f # rest"
    unfolding mx_def before_def by blast
  have small: "list_all (\<lambda>g. \<not> too_large mx g) before"
    unfolding before_def list_all_iff by (auto dest: set_takeWhileD)
  from pr have pr': "before = [] \<or> js_String relId = Inr rel"
    by (simp only: before_def mx_def)
  from up have up': "uploads_succeed e rel before (trace w2)"
    by (simp only: before_def mx_def)
  have loop: "upload_files e mx relId (form_files form) [] w2
              = (Inr (Inl (too_large_response mx f)),
                 w2\<lparr>trace := trace w2 @ map (upload_of rel) before\<rparr>)"
    unfolding files by (rule upload_files_first [OF pr' up' small f(2)])
  have "handleSubmit e req w
        = (Inr (too_large_response mx f),
           w2\<lparr>trace := trace w2 @ map (upload_of rel) before\<rparr>)"
    using pre
    by (simp add: handleSubmit_def form is_multipart_def required_present_def Let_def
          cap [unfolded captcha_token_def] rel loop [unfolded mx_def] mx_def)
  with f(1) show ?thesis unfolding mx_def before_def by blast
qed

lemma max_bytes_sample:
  "max_bytes sample_env = Fin 100" "max_bytes refusing_env = Fin 100" "max_bytes picky_env = Fin 100"
  by code_simp+

lemma two_file_form_oversized: "list_ex (too_large (Fin 100)) (form_files two_file_form)"
  by code_simp

lemma two_file_form_first:
  "find (too_large (Fin 100)) (form_files two_file_form)
   = Some \<lparr>file_name = ''big.zip'', file_size = 101\<rparr>"
  by code_simp

lemma two_file_form_before:
  "takeWhile (\<lambda>g. \<not> too_large (Fin 100) g) (form_files two_file_form)
   = [\<lparr>file_name = ''a b.zip'', file_size = 10\<rparr>]"
  by code_simp

lemma two_file_form_ready:
  "is_multipart (form_request two_file_form)" "required_present two_file_form"
  by code_simp+

lemma picky_captcha:
  "verifyCaptcha picky_env (captcha_token two_file_form) empty_world = (Inr True, empty_world)"
  by (simp add: verifyCaptcha_def picky_env_def sample_env_def)

lemma picky_release_tag: "release_tag picky_env = ''ugc-uploads-2025-01''"
  by code_simp

lemma picky_release:
  "monthlyRelease picky_env empty_world
   = (Inr (Num (Fin 5)), empty_world\<lparr>trace := [Fetch (ReleaseByTag ''ugc-uploads-2025-01'')]\<rparr>)"
  by (simp add: monthlyRelease_def picky_release_tag do_fetch_def)
     (simp add: picky_env_def sample_env_def empty_world_def release_id_def reply_json_def
        get_prop_def)

lemma picky_uploads:
  "uploads_succeed picky_env ''5'' [\<lparr>file_name = ''a b.zip'', file_size = 10\<rparr>]
     [Fetch (ReleaseByTag ''ugc-uploads-2025-01'')]"
  "remote picky_env [] (AssetUpload ''5'' ''c.zip'' 60) = Reply 422 None"
  by code_simp+

lemma sample_too_large_response:
  "too_large_response (Fin 100) \<lparr>file_name = ''big.zip'', file_size = 101\<rparr>
   = err 413 ''File too large: big.zip (101 > 100)''"
  by code_simp

lemma sample_upload:
  "map (upload_of ''5'') [\<lparr>file_name = ''a b.zip'', file_size = 10\<rparr>]
   = [Fetch (AssetUpload ''5'' ''a_b.zip'' 10)]"
  by code_simp

lemma sample_release_string: "js_String (Num (Fin 5)) = Inr ''5''"
  by code_simp

text \<open>
  C6, as stated, fails. The submission is complete, its second file has 101 bytes where
  the maximum is 100, and the remote refuses the upload of the first file, of 10 bytes:
  the submission ends with status 502, not 413.
\<close>

theorem submit_oversized_after_refused_upload:
  "form_data (form_request two_file_form) = Some two_file_form
   \<and> list_ex (too_large (max_bytes refusing_env)) (form_files two_file_form)
   \<and> fst (handleSubmit refusing_env (form_request two_file_form) empty_world)
       = Inr (err 502 ''Asset upload failed for a b.zip'')"
proof -
  have "form_data (form_request two_file_form) = Some two_file_form"
    by (simp add: form_request_def)
  moreover have "list_ex (too_large (max_bytes refusing_env)) (form_files two_file_form)"
    by (simp only: max_bytes_sample two_file_form_oversized)
  moreover have "fst (handleSubmit refusing_env (form_request two_file_form) empty_world)
                 = Inr (err 502 ''Asset upload failed for a b.zip'')"
    by code_simp
  ultimately show ?thesis by blast
qed

text \<open>
  C6, amended. For every submission whose form can be read and whose attached files
  include one larger than the configured maximum: the handler adds to the record of
  effects no creation of an issue and no upload of a file larger than the maximum (each
  file is measured before its own upload), and the response is never the success. When
  moreover the submission reaches the upload loop (multipart content type, the five
  required fields present, captcha passed, the monthly release obtained) and the uploads
  of the files before the first file that is too large succeed (if there are such files:
  the release id can be printed, and each of these uploads is answered with a success
  status and a JSON body that is not \<open>null\<close>), the response is 413 and names the first
  file that is too large, after the files before it, and only they, have been uploaded.
\<close>

theorem submit_oversized_rejected:
  assumes "form_data req = Some form"
    and "list_ex (too_large (max_bytes e)) (form_files form)"
  shows "(\<exists>new. trace (snd (handleSubmit e req w)) = trace w @ new
            \<and> (\<forall>c t fs. Fetch (IssueCreate c t fs) \<notin> set new)
            \<and> (\<forall>rel n sz. Fetch (AssetUpload rel n sz) \<in> set new
                  \<longrightarrow> \<not> jless (max_bytes e) (Fin (of_nat sz))))
         \<and> (\<forall>d. fst (handleSubmit e req w) \<noteq> Inr (ok d))
         \<and> (is_multipart req \<and> required_present form
              \<and> verifyCaptcha e (captcha_token form) w = (Inr True, w1)
              \<and> monthlyRelease e w1 = (Inr relId, w2)
              \<and> (takeWhile (\<lambda>g. \<not> too_large (max_bytes e) g) (form_files form) = []
                  \<or> js_String relId = Inr rel)
              \<and> uploads_succeed e rel
                   (takeWhile (\<lambda>g. \<not> too_large (max_bytes e) g) (form_files form)) (trace w2)
            \<longrightarrow> (\<exists>f. find (too_large (max_bytes e)) (form_files form) = Some f
                   \<and> handleSubmit e req w
                       = (Inr (too_large_response (max_bytes e) f),
                          w2\<lparr>trace := trace w2 @ map (upload_of rel)
                                 (takeWhile (\<lambda>g. \<not> too_large (max_bytes e) g)
                                    (form_files form))\<rparr>)))"
proof (intro conjI allI impI)
  from handleSubmit_oversized(1) [OF assms] obtain new where
    new: "trace (snd (handleSubmit e req w)) = trace w @ new" "list_all (harmless (max_bytes e)) new"
    unfolding extends_harmlessly_def by blast
  from new(1) harmless_new [OF new(2)]
  show "\<exists>new. trace (snd (handleSubmit e req w)) = trace w @ new
            \<and> (\<forall>c t fs. Fetch (IssueCreate c t fs) \<notin> set new)
            \<and> (\<forall>rel n sz. Fetch (AssetUpload rel n sz) \<in> set new
                  \<longrightarrow> \<not> jless (max_bytes e) (Fin (of_nat sz)))"
    by blast
next
  fix d
  show "fst (handleSubmit e req w) \<noteq> Inr (ok d)" by (rule handleSubmit_oversized(2) [OF assms])
next
  assume "is_multipart req \<and> required_present form
          \<and> verifyCaptcha e (captcha_token form) w = (Inr True, w1)
          \<and> monthlyRelease e w1 = (Inr relId, w2)
          \<and> (takeWhile (\<lambda>g. \<not> too_large (max_bytes e) g) (form_files form) = []
              \<or> js_String relId = Inr rel)
          \<and> uploads_succeed e rel
               (takeWhile (\<lambda>g. \<not> too_large (max_bytes e) g) (form_files form)) (trace w2)"
  then show "\<exists>f. find (too_large (max_bytes e)) (form_files form) = Some f
               \<and> handleSubmit e req w
                   = (Inr (too_large_response (max_bytes e) f),
                      w2\<lparr>trace := trace w2 @ map (upload_of rel)
                             (takeWhile (\<lambda>g. \<not> too_large (max_bytes e) g)
                                (form_files form))\<rparr>)"
    using handleSubmit_first_oversized [OF assms] by blast
qed

theorem submit_oversized_rejected_witness:
  "form_data (form_request two_file_form) = Some two_file_form
   \<and> list_ex (too_large (max_bytes picky_env)) (form_files two_file_form)
   \<and> remote picky_env [] (AssetUpload ''5'' ''c.zip'' 60) = Reply 422 None
   \<and> uploads_succeed picky_env ''5''
        (takeWhile (\<lambda>g. \<not> too_large (max_bytes picky_env) g) (form_files two_file_form))
        [Fetch (ReleaseByTag ''ugc-uploads-2025-01'')]
   \<and> handleSubmit picky_env (form_request two_file_form) empty_world
       = (Inr (err 413 ''File too large: big.zip (101 > 100)''),
          empty_world\<lparr>trace := [Fetch (ReleaseByTag ''ugc-uploads-2025-01''),
                                 Fetch (AssetUpload ''5'' ''a_b.zip'' 10)]\<rparr>)"
proof -
  let ?w2 = "empty_world\<lparr>trace := [Fetch (ReleaseByTag ''ugc-uploads-2025-01'')]\<rparr>"
  have h1: "form_data (form_request two_file_form) = Some two_file_form"
    by (simp add: form_request_def)
  have h2: "list_ex (too_large (max_bytes picky_env)) (form_files two_file_form)"
    by (simp only: max_bytes_sample two_file_form_oversized)
  have tw2: "trace ?w2 = [Fetch (ReleaseByTag ''ugc-uploads-2025-01'')]" by simp
  have h3: "takeWhile (\<lambda>g. \<not> too_large (max_bytes picky_env) g) (form_files two_file_form) = []
            \<or> js_String (Num (Fin 5)) = Inr ''5''"
    using sample_release_string by blast
  have h4: "uploads_succeed picky_env ''5''
              (takeWhile (\<lambda>g. \<not> too_large (max_bytes picky_env) g) (form_files two_file_form))
              (trace ?w2)"
    by (simp only: max_bytes_sample two_file_form_before tw2 picky_uploads)
  note T = submit_oversized_rejected [OF h1 h2, where w = empty_world and ?w1.0 = empty_world
      and relId = "Num (Fin 5)" and ?w2.0 = ?w2 and rel = "''5''"]
  from T two_file_form_ready picky_captcha picky_release h3 h4
  have "\<exists>f. find (too_large (max_bytes picky_env)) (form_files two_file_form) = Some f
          \<and> handleSubmit picky_env (form_request two_file_form) empty_world
              = (Inr (too_large_response (max_bytes picky_env) f),
                 ?w2\<lparr>trace := trace ?w2 @ map (upload_of ''5'')
                            (takeWhile (\<lambda>g. \<not> too_large (max_bytes picky_env) g)
                               (form_files two_file_form))\<rparr>)"
    by blast
  then have "handleSubmit picky_env (form_request two_file_form) empty_world
              = (Inr (err 413 ''File too large: big.zip (101 > 100)''),
                 ?w2\<lparr>trace := trace ?w2 @ [Fetch (AssetUpload ''5'' ''a_b.zip'' 10)]\<rparr>)"
    unfolding max_bytes_sample two_file_form_first two_file_form_before sample_upload
    by (auto simp only: option.inject sample_too_large_response)
  then have "handleSubmit picky_env (form_request two_file_form) empty_world
       = (Inr (err 413 ''File too large: big.zip (101 > 100)''),
          empty_world\<lparr>trace := [Fetch (ReleaseByTag ''ugc-uploads-2025-01''),
                                 Fetch (AssetUpload ''5'' ''a_b.zip'' 10)]\<rparr>)"
    by simp
  moreover from h4 have "uploads_succeed picky_env ''5''
        (takeWhile (\<lambda>g. \<not> too_large (max_bytes picky_env) g) (form_files two_file_form))
        [Fetch (ReleaseByTag ''ugc-uploads-2025-01'')]"
    by (simp only: tw2)
  ultimately show ?thesis using h1 h2 picky_uploads(2) by blast
qed

end
